theory Spec2Isabelle
  imports Complex_Main
begin

section \<open>Values and errors\<close>

text \<open>
  The notebook computes on Python floats and on tensors of floats. Finite float values
  are modelled by \<^typ>\<open>real\<close>: comparisons between finite floats (and between a float
  and a Python integer) are exactly those of the reals. The split utility's product of
  the validation ratio and the length is rounded as binary64 arithmetic rounds it. The
  rounding of the arithmetic on losses and tensors and the values NaN and infinity are
  outside this model.

  A feature row is a list of numbers; a two-dimensional tensor or array is the list of
  its rows.
\<close>

type_synonym row = "real list"

datatype error = IndexError | ZeroDivisionError | RuntimeError | ValueError

section \<open>Dataset\<close>

text \<open>
  \<^verbatim>\<open>
  class MyDataset(Dataset):
      def __init__(self, x, y=None):
          if y is None:
              self.y = y
          else:
              self.y = torch.FloatTensor(y)
          self.x = torch.FloatTensor(x)

      def __getitem__(self, idx):
          if self.y is None:
              return self.x[idx]
          else:
              return self.x[idx], self.y[idx]

      def __len__(self):
          return len(self.x)
  \<close>
\<close>

record MyDataset =
  x :: "row list"
  y :: "real list option"

definition MyDataset_init :: "row list \<Rightarrow> real list option \<Rightarrow> MyDataset" where
  "MyDataset_init xs ys = \<lparr>x = xs, y = ys\<rparr>"

text \<open>
  Indexing a tensor along its first dimension with an integer: an index \<open>i\<close> with
  \<open>-n \<le> i < 0\<close> counts from the end, and an index outside \<open>[-n, n)\<close> raises IndexError.
\<close>

definition tensor_getitem :: "'a list \<Rightarrow> int \<Rightarrow> error + 'a" where
  "tensor_getitem t idx =
     (let n = int (length t); j = (if idx < 0 then n + idx else idx)
      in if 0 \<le> j \<and> j < n then Inr (t ! nat j) else Inl IndexError)"

text \<open>What \<open>__getitem__\<close> returns: a feature row alone, or the pair of a row and its label.\<close>

datatype item = Features row | Labelled row real

definition getitem :: "MyDataset \<Rightarrow> int \<Rightarrow> error + item" where
  "getitem self idx =
     (case y self of
        None \<Rightarrow>
          (case tensor_getitem (x self) idx of
             Inl e \<Rightarrow> Inl e
           | Inr r \<Rightarrow> Inr (Features r))
      | Some ys \<Rightarrow>
          (case tensor_getitem (x self) idx of
             Inl e \<Rightarrow> Inl e
           | Inr r \<Rightarrow>
               (case tensor_getitem ys idx of
                  Inl e \<Rightarrow> Inl e
                | Inr l \<Rightarrow> Inr (Labelled r l))))"

definition len :: "MyDataset \<Rightarrow> nat" where
  "len self = length (x self)"

text \<open>
  The data model's invariant of a dataset object: when labels are present there is one
  label per feature row. The constructor does not check it.
\<close>

definition aligned :: "MyDataset \<Rightarrow> bool" where
  "aligned self = (case y self of None \<Rightarrow> True | Some ys \<Rightarrow> length ys = length (x self))"

text \<open>The item at position \<open>k\<close> of a dataset, for a position that is in range.\<close>

definition item_at :: "MyDataset \<Rightarrow> nat \<Rightarrow> item" where
  "item_at self k =
     (case y self of
        None \<Rightarrow> Features (x self ! k)
      | Some ys \<Rightarrow> Labelled (x self ! k) (ys ! k))"

section \<open>Split utility\<close>

text \<open>
  The random number generators of the framework are not part of the notebook; they are a
  parameter of the model. \<open>manual_seed seed\<close> is the state of a fresh generator after
  \<^verbatim>\<open>torch.Generator().manual_seed(seed)\<close>, and \<open>randperm g n\<close> is the list
  \<^verbatim>\<open>torch.randperm(n, generator=g).tolist()\<close> drawn from a generator in state \<open>g\<close>,
  with the state the generator is left in. The process also has a default generator,
  which \<open>set_seed\<close> seeds and from which every draw without an explicit generator is
  taken; a function that may draw random numbers takes its state and returns it.
\<close>

record 'g torch =
  manual_seed :: "nat \<Rightarrow> 'g"
  randperm :: "'g \<Rightarrow> nat \<Rightarrow> nat list \<times> 'g"

text \<open>Python's \<open>int(v)\<close> on a float truncates toward zero.\<close>

definition py_int :: "real \<Rightarrow> int" where
  "py_int v = (if 0 \<le> v then \<lfloor>v\<rfloor> else \<lceil>v\<rceil>)"

text \<open>
  Binary64 arithmetic. A Python float is a binary64 number, here the real number it
  stands for. The product of two floats is the exact product rounded to the nearest
  binary64 number, ties to the even significand; \<open>len(data_set)\<close> below \<open>2 ^ 53\<close>
  converts to a float exactly. \<open>bit_length\<close> is \<open>int.bit_length\<close>; \<open>exponent64 v\<close> is the
  binary exponent \<open>e\<close> of \<open>v\<close>, with \<open>2 ^ e \<le> \<bar>v\<bar> < 2 ^ (e + 1)\<close>, and not below \<open>-1022\<close>
  (the subnormal numbers share the least exponent); the spacing of the binary64 numbers
  around \<open>v\<close> is \<open>2 ^ (e - 52)\<close>. Overflow to infinity is outside the model.
\<close>

fun bit_length :: "nat \<Rightarrow> nat" where
  "bit_length n = (if n = 0 then 0 else Suc (bit_length (n div 2)))"

declare bit_length.simps [simp del]

definition exponent64 :: "real \<Rightarrow> int" where
  "exponent64 v =
     (let a = \<bar>v\<bar>
      in if 1 \<le> a then int (bit_length (nat \<lfloor>a\<rfloor>)) - 1
         else max (- 1022) (- int (bit_length (nat (\<lceil>1 / a\<rceil> - 1)))))"

definition round_half_even :: "real \<Rightarrow> int" where
  "round_half_even q =
     (let f = \<lfloor>q\<rfloor>; d = q - of_int f
      in if d < 1 / 2 then f else if 1 / 2 < d then f + 1 else if even f then f else f + 1)"

definition round64 :: "real \<Rightarrow> real" where
  "round64 v =
     (let e = exponent64 v - 52
      in if 0 \<le> e then of_int (round_half_even (v / 2 ^ nat e)) * 2 ^ nat e
         else of_int (round_half_even (v * 2 ^ nat (- e))) / 2 ^ nat (- e))"

definition float_mul :: "real \<Rightarrow> real \<Rightarrow> real" where
  "float_mul a b = round64 (a * b)"

text \<open>A list slice \<open>xs[lo:hi]\<close>: negative bounds count from the end, and bounds are clipped.\<close>

definition py_slice :: "'a list \<Rightarrow> int \<Rightarrow> int \<Rightarrow> 'a list" where
  "py_slice xs lo hi =
     (let n = int (length xs);
          l = (if lo < 0 then max (n + lo) 0 else min lo n);
          h = (if hi < 0 then max (n + hi) 0 else min hi n)
      in take (nat (h - l)) (drop (nat l) xs))"

text \<open>\<open>itertools.accumulate\<close>: the running sums of a list, after a starting total.\<close>

primrec accumulate :: "int \<Rightarrow> int list \<Rightarrow> int list" where
  "accumulate acc [] = []"
| "accumulate acc (l # ls) = (acc + l) # accumulate (acc + l) ls"

text \<open>
  \<^verbatim>\<open>
  def random_split(dataset, lengths, generator):
      if sum(lengths) != len(dataset):
          raise ValueError(...)
      indices = randperm(sum(lengths), generator=generator).tolist()
      return [Subset(dataset, indices[offset - length : offset])
              for offset, length in zip(_accumulate(lengths), lengths)]
  \<close>
  The framework's function, returning the index list of each subset and the state it
  leaves its generator in.
\<close>

definition random_split ::
  "'g torch \<Rightarrow> nat \<Rightarrow> int list \<Rightarrow> 'g \<Rightarrow> (error + nat list list) \<times> 'g" where
  "random_split T n lengths generator =
     (if sum_list lengths \<noteq> int n then (Inl ValueError, generator)
      else
        case randperm T generator (nat (sum_list lengths)) of
          (indices, generator) \<Rightarrow>
            (Inr (map (\<lambda>(offset, l). py_slice indices (offset - l) offset)
                    (zip (accumulate 0 lengths) lengths)),
             generator))"

text \<open>
  \<open>np.array(subset)\<close> reads the subset through its length and its items: the rows
  \<open>dataset[indices[k]]\<close>, in the order of the subset's index list.
\<close>

definition Subset_rows :: "'a list \<Rightarrow> nat list \<Rightarrow> error + 'a list" where
  "Subset_rows dataset indices =
     (if list_all (\<lambda>i. i < length dataset) indices then Inr (map ((!) dataset) indices)
      else Inl IndexError)"

text \<open>
  \<^verbatim>\<open>
  def train_valid_split(data_set, valid_ratio, seed):
      valid_set_size = int(valid_ratio * len(data_set))
      train_set_size = len(data_set) - valid_set_size
      train_set, valid_set = random_split(data_set, [train_set_size, valid_set_size],
                                          generator=torch.Generator().manual_seed(seed))
      return np.array(train_set), np.array(valid_set)
  \<close>
  \<open>split_indices\<close> is the pair of index lists of \<open>train_set\<close> and \<open>valid_set\<close>, for a data
  set of \<open>n\<close> rows and the generator handed to \<open>random_split\<close>. \<open>train_valid_split\<close> takes
  the state of the process's default generator as its last argument and returns it with
  its result.
\<close>

definition split_indices ::
  "'g torch \<Rightarrow> nat \<Rightarrow> real \<Rightarrow> 'g \<Rightarrow> error + nat list \<times> nat list" where
  "split_indices T n valid_ratio generator =
     (let valid_set_size = py_int (float_mul valid_ratio (real n));
          train_set_size = int n - valid_set_size
      in case fst (random_split T n [train_set_size, valid_set_size] generator) of
           Inl e \<Rightarrow> Inl e
         | Inr subsets \<Rightarrow>
             (case subsets of
                [train_set, valid_set] \<Rightarrow> Inr (train_set, valid_set)
              | _ \<Rightarrow> Inl ValueError))"

definition train_valid_split ::
  "'g torch \<Rightarrow> 'a list \<Rightarrow> real \<Rightarrow> nat \<Rightarrow> 'g \<Rightarrow> (error + 'a list \<times> 'a list) \<times> 'g" where
  "train_valid_split T data_set valid_ratio seed default_generator =
     (case split_indices T (length data_set) valid_ratio (manual_seed T seed) of
        Inl e \<Rightarrow> (Inl e, default_generator)
      | Inr (train_set, valid_set) \<Rightarrow>
          (case Subset_rows data_set train_set of
             Inl e \<Rightarrow> (Inl e, default_generator)
           | Inr train_rows \<Rightarrow>
               (case Subset_rows data_set valid_set of
                  Inl e \<Rightarrow> (Inl e, default_generator)
                | Inr valid_rows \<Rightarrow> (Inr (train_rows, valid_rows), default_generator))))"

text \<open>
  A small generator for worked examples: the seed is the generator's state; an even state
  yields the identity permutation, an odd one the reversed order, and a draw moves the
  state on by one.
\<close>

definition example_torch :: "nat torch" where
  "example_torch =
     \<lparr>manual_seed = (\<lambda>seed. seed),
      randperm = (\<lambda>g n. (if even g then [0..<n] else rev [0..<n], g + 1))\<rparr>"

section \<open>Loaders\<close>

text \<open>
  \<^verbatim>\<open>DataLoader(dataset, batch_size=..., shuffle=..., pin_memory=True)\<close> is the
  framework's. One pass over a loader takes the indices of the data set in the sampler's
  order (\<open>0, 1, ...\<close> when \<open>shuffle\<close> is false, a fresh random order otherwise), groups
  them into batches, fetches every item through \<open>__getitem__\<close> and stacks the items of
  a batch. The random order of a pass is an argument of the model. The framework rejects
  a batch size that is not positive and a shuffled loader over an empty data set with
  ValueError.
\<close>

record DataLoader =
  dataset :: MyDataset
  batch_size :: nat
  shuffle :: bool

text \<open>
  The batch sampler (with \<open>drop_last=False\<close>):
  \<^verbatim>\<open>
  batch = []
  for idx in self.sampler:
      batch.append(idx)
      if len(batch) == self.batch_size:
          yield batch
          batch = []
  if len(batch) > 0 and not self.drop_last:
      yield batch
  \<close>
\<close>

primrec batch_sampler :: "nat \<Rightarrow> nat list \<Rightarrow> nat list \<Rightarrow> nat list list" where
  "batch_sampler bsize batch [] = (if length batch > 0 then [batch] else [])"
| "batch_sampler bsize batch (idx # rest) =
     (if length (batch @ [idx]) = bsize then (batch @ [idx]) # batch_sampler bsize [] rest
      else batch_sampler bsize (batch @ [idx]) rest)"

text \<open>A list of results in order; the first failure is the failure of the whole.\<close>

primrec collect :: "(error + 'a) list \<Rightarrow> error + 'a list" where
  "collect [] = Inr []"
| "collect (r # rs) =
     (case r of
        Inl e \<Rightarrow> Inl e
      | Inr v \<Rightarrow> (case collect rs of Inl e \<Rightarrow> Inl e | Inr vs \<Rightarrow> Inr (v # vs)))"

definition sampler_order :: "DataLoader \<Rightarrow> nat list \<Rightarrow> nat list" where
  "sampler_order loader drawn =
     (if shuffle loader then drawn else [0..<len (dataset loader)])"

definition DataLoader_iter :: "DataLoader \<Rightarrow> nat list \<Rightarrow> error + item list list" where
  "DataLoader_iter loader drawn =
     (if batch_size loader = 0 then Inl ValueError
      else if shuffle loader \<and> len (dataset loader) = 0 then Inl ValueError
      else
        collect (map (\<lambda>batch. collect (map (\<lambda>idx. getitem (dataset loader) (int idx)) batch))
                   (batch_sampler (batch_size loader) [] (sampler_order loader drawn))))"

text \<open>
  Stacking the items of a batch: a batch of a labelled data set is the pair of the stacked
  rows and the stacked labels (\<^verbatim>\<open>for x, y in loader\<close>); a batch of an input-only data
  set is the stacked rows (\<^verbatim>\<open>for x in loader\<close>).
\<close>

definition item_row :: "item \<Rightarrow> row" where
  "item_row it = (case it of Features r \<Rightarrow> r | Labelled r l \<Rightarrow> r)"

definition item_labels :: "item list \<Rightarrow> real list" where
  "item_labels its = concat (map (\<lambda>it. case it of Features r \<Rightarrow> [] | Labelled r l \<Rightarrow> [l]) its)"

type_synonym xy_batch = "row list \<times> real list"

definition collate_xy :: "item list \<Rightarrow> xy_batch" where
  "collate_xy its = (map item_row its, item_labels its)"

definition collate_x :: "item list \<Rightarrow> row list" where
  "collate_x its = map item_row its"

text \<open>
  What a loop over a loader sees in one pass: the list of its batches, or the error the
  iteration raised. The passes of a loader are numbered from \<open>0\<close>; the trainer makes one
  pass over each of its loaders per epoch.
\<close>

type_synonym 'b pass = "error + 'b list"

definition xy_pass :: "DataLoader \<Rightarrow> nat list \<Rightarrow> xy_batch pass" where
  "xy_pass loader drawn =
     (case DataLoader_iter loader drawn of Inl e \<Rightarrow> Inl e | Inr bs \<Rightarrow> Inr (map collate_xy bs))"

definition x_pass :: "DataLoader \<Rightarrow> nat list \<Rightarrow> row list pass" where
  "x_pass loader drawn =
     (case DataLoader_iter loader drawn of Inl e \<Rightarrow> Inl e | Inr bs \<Rightarrow> Inr (map collate_x bs))"

section \<open>Model and optimizer\<close>

text \<open>
  The network's forward pass, automatic differentiation and the Adam optimizer are the
  framework's; they are parameters. \<open>forward p xs\<close> is \<^verbatim>\<open>model(x)\<close> for parameters \<open>p\<close>
  on a batch \<open>xs\<close>; \<open>Adam lr wd\<close> is the state of a fresh optimizer; \<open>update p opt xs ys\<close>
  is the pair of the parameters and the optimizer state after
  \<^verbatim>\<open>optimizer.zero_grad(); loss.backward(); optimizer.step()\<close> on the batch.
\<close>

record ('p, 'o) net =
  forward :: "'p \<Rightarrow> row list \<Rightarrow> real list"
  Adam :: "real \<Rightarrow> real \<Rightarrow> 'o"
  update :: "'p \<Rightarrow> 'o \<Rightarrow> row list \<Rightarrow> real list \<Rightarrow> 'p \<times> 'o"

text \<open>A model object: its parameters and its mode flag (\<^verbatim>\<open>model.train()\<close>, \<^verbatim>\<open>model.eval()\<close>).\<close>

record 'p model =
  params :: 'p
  training :: bool

text \<open>
  \<^verbatim>\<open>nn.MSELoss(reduction='mean')\<close> on a batch of predictions and targets (for a batch
  that is not empty).
\<close>

definition MSELoss :: "real list \<Rightarrow> real list \<Rightarrow> real" where
  "MSELoss pred target =
     sum_list (map (\<lambda>(a, b). (a - b)\<^sup>2) (zip pred target)) / real (length pred)"

section \<open>Predictor\<close>

text \<open>
  \<^verbatim>\<open>
  def predict(data_loader, model, device):
      model.eval()
      preds = []
      for x in tqdm(test_loader):
          x = x.to(device)
          with torch.no_grad():
              pred = model(x)
              preds.append(pred.detach().cpu())
      preds = torch.cat(preds, dim=0).numpy()
      return preds
  \<close>
  The loop reads \<open>test_loader\<close>, a variable of the notebook's global scope, which is the
  first argument of the model. \<open>torch.cat\<close> of an empty list raises RuntimeError. The
  function returns the predictions and leaves the model in its new mode.
\<close>

definition predict ::
  "('p, 'o) net \<Rightarrow> row list pass \<Rightarrow> row list pass \<Rightarrow> 'p model \<Rightarrow> (error + real list) \<times> 'p model" where
  "predict N test_loader data_loader model =
     (let model = model\<lparr>training := False\<rparr>
      in case test_loader of
           Inl e \<Rightarrow> (Inl e, model)
         | Inr batches \<Rightarrow>
             (let preds = map (\<lambda>x. forward N (params model) x) batches
              in if preds = [] then (Inl RuntimeError, model) else (Inr (concat preds), model)))"

section \<open>Trainer\<close>

text \<open>
  The entries of the \<open>config\<close> dictionary that the loaders and the trainer read
  (\<open>batch_size_cfg\<close> is \<^verbatim>\<open>config['batch_size']\<close>).
\<close>

record config =
  n_epochs :: int
  batch_size_cfg :: nat
  weight_decay :: real
  lr :: real
  early_stop :: int

text \<open>
  The trainer's variables and what it acts on: the model, the optimizer, \<open>best_loss\<close>,
  \<open>step\<close>, \<open>early_stop_count\<close>, the scalars sent to the summary writer (tag, value,
  step), the checkpoint file at \<open>save_path\<close> (\<open>None\<close> while no such file exists), the
  description of the progress bar (\<open>epoch + 1\<close> and \<open>n_epochs\<close>) and the lines printed.
\<close>

record ('p, 'o) train_state =
  model :: "'p model"
  optimizer :: 'o
  best_loss :: real
  step :: nat
  early_stop_count :: nat
  writer :: "(string \<times> real \<times> nat) list"
  checkpoint :: "'p option"
  pbar :: "(nat \<times> int) option"
  stdout :: "string list"

text \<open>
  \<^verbatim>\<open>
  optimizer = torch.optim.Adam(model.parameters(), lr=config['lr'],
                               weight_decay=config['weight_decay'])
  writer = SummaryWriter()
  n_epochs, best_loss, step, early_stop_count = config['n_epochs'], 2**64, 0, 0
  \<close>
\<close>

definition trainer_init ::
  "('p, 'o) net \<Rightarrow> 'p model \<Rightarrow> config \<Rightarrow> 'p option \<Rightarrow> ('p, 'o) train_state" where
  "trainer_init N m cfg file =
     \<lparr>model = m, optimizer = Adam N (lr cfg) (weight_decay cfg), best_loss = 2 ^ 64,
      step = 0, early_stop_count = 0, writer = [], checkpoint = file, pbar = None,
      stdout = []\<rparr>"

text \<open>
  \<^verbatim>\<open>
  for x, y in train_loader:
      optimizer.zero_grad()
      pred = model(x)
      loss = criterion(pred, y)
      loss.backward()
      optimizer.step()
      step += 1
      loss_record.append(loss.detach().item())
  \<close>
\<close>

primrec train_batches ::
  "('p, 'o) net \<Rightarrow> xy_batch list \<Rightarrow> ('p, 'o) train_state \<Rightarrow> real list
     \<Rightarrow> ('p, 'o) train_state \<times> real list" where
  "train_batches N [] s loss_record = (s, loss_record)"
| "train_batches N (b # bs) s loss_record =
     (let pred = forward N (params (model s)) (fst b);
          loss = MSELoss pred (snd b);
          (p, opt) = update N (params (model s)) (optimizer s) (fst b) (snd b)
      in train_batches N bs
           (s\<lparr>model := (model s)\<lparr>params := p\<rparr>, optimizer := opt, step := step s + 1\<rparr>)
           (loss_record @ [loss]))"

text \<open>\<^verbatim>\<open>sum(loss_record)/len(loss_record)\<close>: division by zero raises.\<close>

definition mean_loss :: "real list \<Rightarrow> error + real" where
  "mean_loss loss_record =
     (if length loss_record = 0 then Inl ZeroDivisionError
      else Inr (sum_list loss_record / real (length loss_record)))"

text \<open>
  The training half of an epoch: \<^verbatim>\<open>model.train()\<close>, the pass over the batches, the mean
  training loss and its scalar.
\<close>

definition train_phase ::
  "('p, 'o) net \<Rightarrow> xy_batch pass \<Rightarrow> ('p, 'o) train_state \<Rightarrow> error + ('p, 'o) train_state" where
  "train_phase N batches s =
     (case batches of
        Inl e \<Rightarrow> Inl e
      | Inr bs \<Rightarrow>
          (let (s, loss_record) = train_batches N bs (s\<lparr>model := (model s)\<lparr>training := True\<rparr>\<rparr>) []
           in case mean_loss loss_record of
                Inl e \<Rightarrow> Inl e
              | Inr mean_train_loss \<Rightarrow>
                  Inr (s\<lparr>writer := writer s @ [(''Loss/train'', mean_train_loss, step s)]\<rparr>)))"

text \<open>
  The validation half, after \<^verbatim>\<open>model.eval()\<close>: the mean of the batch losses under the
  current parameters, without any update.
  \<^verbatim>\<open>
  for x, y in valid_loader:
      with torch.no_grad():
          pred = model(x)
          loss = criterion(pred, y)
      loss_record.append(loss.item())
  mean_valid_loss = sum(loss_record)/len(loss_record)
  \<close>
\<close>

definition valid_phase :: "('p, 'o) net \<Rightarrow> xy_batch pass \<Rightarrow> 'p \<Rightarrow> error + real" where
  "valid_phase N batches p =
     (case batches of
        Inl e \<Rightarrow> Inl e
      | Inr bs \<Rightarrow> mean_loss (map (\<lambda>b. MSELoss (forward N p (fst b)) (snd b)) bs))"

text \<open>
  The end of an epoch, once \<open>mean_valid_loss\<close> is known:
  \<^verbatim>\<open>
  writer.add_scalar('Loss/valid', mean_valid_loss, step)
  epoch_pbar.set_description(f'Epoch [{epoch+1}/{n_epochs}]')
  if mean_valid_loss < best_loss:
      best_loss = mean_valid_loss
      torch.save(model.state_dict(), config['save_path'])
      early_stop_count = 0
  else:
      early_stop_count += 1
  \<close>
\<close>

definition track_best ::
  "config \<Rightarrow> nat \<Rightarrow> real \<Rightarrow> ('p, 'o) train_state \<Rightarrow> ('p, 'o) train_state" where
  "track_best cfg epoch mean_valid_loss s =
     (let s = s\<lparr>writer := writer s @ [(''Loss/valid'', mean_valid_loss, step s)],
                pbar := Some (epoch + 1, n_epochs cfg)\<rparr>
      in if mean_valid_loss < best_loss s
         then s\<lparr>best_loss := mean_valid_loss, checkpoint := Some (params (model s)),
                early_stop_count := 0\<rparr>
         else s\<lparr>early_stop_count := early_stop_count s + 1\<rparr>)"

text \<open>The mean validation loss that epoch number \<open>epoch\<close> computes when it starts in state \<open>s\<close>.\<close>

definition epoch_valid_loss ::
  "('p, 'o) net \<Rightarrow> (nat \<Rightarrow> xy_batch pass) \<Rightarrow> (nat \<Rightarrow> xy_batch pass) \<Rightarrow> nat
     \<Rightarrow> ('p, 'o) train_state \<Rightarrow> error + real" where
  "epoch_valid_loss N train_loader valid_loader epoch s =
     (case train_phase N (train_loader epoch) s of
        Inl e \<Rightarrow> Inl e
      | Inr s1 \<Rightarrow> valid_phase N (valid_loader epoch) (params (model s1)))"

text \<open>
  One iteration of the epoch loop, up to the early-stop test: the training half,
  \<^verbatim>\<open>model.eval()\<close>, the validation half and the bookkeeping.
\<close>

definition run_epoch ::
  "('p, 'o) net \<Rightarrow> (nat \<Rightarrow> xy_batch pass) \<Rightarrow> (nat \<Rightarrow> xy_batch pass) \<Rightarrow> config \<Rightarrow> nat
     \<Rightarrow> ('p, 'o) train_state \<Rightarrow> error + ('p, 'o) train_state" where
  "run_epoch N train_loader valid_loader cfg epoch s =
     (case train_phase N (train_loader epoch) s of
        Inl e \<Rightarrow> Inl e
      | Inr s1 \<Rightarrow>
          (let s2 = s1\<lparr>model := (model s1)\<lparr>training := False\<rparr>\<rparr>
           in case valid_phase N (valid_loader epoch) (params (model s2)) of
                Inl e \<Rightarrow> Inl e
              | Inr mean_valid_loss \<Rightarrow> Inr (track_best cfg epoch mean_valid_loss s2)))"

text \<open>
  The epoch loop, \<^verbatim>\<open>for epoch in range(n_epochs)\<close>, with its early return:
  \<^verbatim>\<open>
  if early_stop_count >= config['early_stop']:
      print('Trining end.')
      return
  \<close>
\<close>

definition halt :: "('p, 'o) train_state \<Rightarrow> ('p, 'o) train_state" where
  "halt s = s\<lparr>stdout := stdout s @ [''Trining end.'']\<rparr>"

function trainer_loop ::
  "('p, 'o) net \<Rightarrow> (nat \<Rightarrow> xy_batch pass) \<Rightarrow> (nat \<Rightarrow> xy_batch pass) \<Rightarrow> config \<Rightarrow> nat
     \<Rightarrow> ('p, 'o) train_state \<Rightarrow> error + ('p, 'o) train_state" where
  "trainer_loop N train_loader valid_loader cfg epoch s =
     (if int epoch < n_epochs cfg then
        (case run_epoch N train_loader valid_loader cfg epoch s of
           Inl e \<Rightarrow> Inl e
         | Inr s' \<Rightarrow>
             if int (early_stop_count s') \<ge> early_stop cfg then Inr (halt s')
             else trainer_loop N train_loader valid_loader cfg (Suc epoch) s')
      else Inr s)"
  by pat_completeness auto
termination
  by (relation "measure (\<lambda>(N, train_loader, valid_loader, cfg, epoch, s). nat (n_epochs cfg) - epoch)")
    auto

declare trainer_loop.simps [simp del]

definition trainer ::
  "('p, 'o) net \<Rightarrow> (nat \<Rightarrow> xy_batch pass) \<Rightarrow> (nat \<Rightarrow> xy_batch pass) \<Rightarrow> 'p model \<Rightarrow> config
     \<Rightarrow> 'p option \<Rightarrow> error + ('p, 'o) train_state" where
  "trainer N train_loader valid_loader m cfg file =
     trainer_loop N train_loader valid_loader cfg 0 (trainer_init N m cfg file)"

text \<open>
  For stating properties of a run: \<open>after_epochs k epoch s\<close> is the state after \<open>k\<close>
  consecutive iterations of the loop body, the first with index \<open>epoch\<close> and from state
  \<open>s\<close>; \<open>stalled k epoch s\<close> says that each of these \<open>k\<close> iterations completes and that
  its mean validation loss is not strictly below the best loss it starts with.
\<close>

primrec after_epochs ::
  "('p, 'o) net \<Rightarrow> (nat \<Rightarrow> xy_batch pass) \<Rightarrow> (nat \<Rightarrow> xy_batch pass) \<Rightarrow> config \<Rightarrow> nat \<Rightarrow> nat
     \<Rightarrow> ('p, 'o) train_state \<Rightarrow> error + ('p, 'o) train_state" where
  "after_epochs N train_loader valid_loader cfg 0 epoch s = Inr s"
| "after_epochs N train_loader valid_loader cfg (Suc k) epoch s =
     (case run_epoch N train_loader valid_loader cfg epoch s of
        Inl e \<Rightarrow> Inl e
      | Inr s' \<Rightarrow> after_epochs N train_loader valid_loader cfg k (Suc epoch) s')"

primrec stalled ::
  "('p, 'o) net \<Rightarrow> (nat \<Rightarrow> xy_batch pass) \<Rightarrow> (nat \<Rightarrow> xy_batch pass) \<Rightarrow> config \<Rightarrow> nat \<Rightarrow> nat
     \<Rightarrow> ('p, 'o) train_state \<Rightarrow> bool" where
  "stalled N train_loader valid_loader cfg 0 epoch s = True"
| "stalled N train_loader valid_loader cfg (Suc k) epoch s =
     (case epoch_valid_loss N train_loader valid_loader epoch s of
        Inl e \<Rightarrow> False
      | Inr v \<Rightarrow>
          \<not> v < best_loss s \<and>
          (case run_epoch N train_loader valid_loader cfg epoch s of
             Inl e \<Rightarrow> False
           | Inr s' \<Rightarrow> stalled N train_loader valid_loader cfg k (Suc epoch) s'))"

text \<open>
  The validation losses a run has logged so far, in order, and the invariant of the epoch
  loop. The history \<open>h\<close> lists, for every completed epoch, its mean validation loss and the
  parameters the model had at the end of that epoch; \<open>file\<close> is the checkpoint file as it
  was before training. \<open>best_checkpoint\<close> is the content the checkpoint file should have:
  the parameters of the first epoch that reached the least validation loss, once some
  epoch's loss was below \<open>2 ^ 64\<close>, and the old file otherwise.
\<close>

definition valid_log :: "('p, 'o) train_state \<Rightarrow> real list" where
  "valid_log s = map (\<lambda>(tag, v, st). v) (filter (\<lambda>(tag, v, st). tag = ''Loss/valid'') (writer s))"

definition best_checkpoint :: "'p option \<Rightarrow> (real \<times> 'p) list \<Rightarrow> 'p option" where
  "best_checkpoint file h =
     (if list_ex (\<lambda>(v, p). v < 2 ^ 64) h
      then map_option snd (find (\<lambda>(v, p). v = Min (fst ` set h)) h)
      else file)"

definition ckpt_inv :: "'p option \<Rightarrow> (real \<times> 'p) list \<Rightarrow> ('p, 'o) train_state \<Rightarrow> bool" where
  "ckpt_inv file h s =
     (valid_log s = map fst h
      \<and> best_loss s = Min (insert (2 ^ 64) (fst ` set h))
      \<and> checkpoint s = best_checkpoint file h)"

section \<open>Orchestration\<close>

text \<open>
  \<^verbatim>\<open>
  train_dataset, valid_dataset, test_dataset = MyDataset(x_valid, y_valid), MyDataset(x_train, y_train), MyDataset(x_text)
  train_loader = DataLoader(train_dataset, batch_size=config['batch_size'], shuffle=True, pin_memory=True)
  valid_loader = DataLoader(valid_dataset, batch_size=config['batch_size'], shuffle=True, pin_memory=True)
  test_loader = DataLoader(test_dataset, batch_size=config['batch_size'], shuffle=False, pin_memory=True)
  model = FNN(input_dim=x_train.shape[1]).to(torch.device(config['device']))
  trainer(train_loader, valid_loader, model, config)
  \<close>
  \<open>draws_train k\<close> and \<open>draws_valid k\<close> are the random orders of the \<open>k\<close>-th pass over
  the two shuffled loaders.
\<close>

definition notebook_datasets ::
  "row list \<Rightarrow> row list \<Rightarrow> row list \<Rightarrow> real list \<Rightarrow> real list
     \<Rightarrow> MyDataset \<times> MyDataset \<times> MyDataset" where
  "notebook_datasets x_train x_valid x_text y_train y_valid =
     (let train_dataset = MyDataset_init x_valid (Some y_valid);
          valid_dataset = MyDataset_init x_train (Some y_train);
          test_dataset = MyDataset_init x_text None
      in (train_dataset, valid_dataset, test_dataset))"

definition notebook_loaders ::
  "config \<Rightarrow> MyDataset \<times> MyDataset \<times> MyDataset \<Rightarrow> DataLoader \<times> DataLoader \<times> DataLoader" where
  "notebook_loaders cfg datasets =
     (case datasets of (train_dataset, valid_dataset, test_dataset) \<Rightarrow>
        let train_loader = \<lparr>dataset = train_dataset, batch_size = batch_size_cfg cfg, shuffle = True\<rparr>;
            valid_loader = \<lparr>dataset = valid_dataset, batch_size = batch_size_cfg cfg, shuffle = True\<rparr>;
            test_loader = \<lparr>dataset = test_dataset, batch_size = batch_size_cfg cfg, shuffle = False\<rparr>
        in (train_loader, valid_loader, test_loader))"

definition notebook_training ::
  "('p, 'o) net \<Rightarrow> config \<Rightarrow> row list \<Rightarrow> row list \<Rightarrow> row list \<Rightarrow> real list \<Rightarrow> real list
     \<Rightarrow> (nat \<Rightarrow> nat list) \<Rightarrow> (nat \<Rightarrow> nat list) \<Rightarrow> 'p model \<Rightarrow> 'p option
     \<Rightarrow> error + ('p, 'o) train_state" where
  "notebook_training N cfg x_train x_valid x_text y_train y_valid draws_train draws_valid m file =
     (case notebook_loaders cfg (notebook_datasets x_train x_valid x_text y_train y_valid) of
        (train_loader, valid_loader, test_loader) \<Rightarrow>
          trainer N (\<lambda>k. xy_pass train_loader (draws_train k))
            (\<lambda>k. xy_pass valid_loader (draws_valid k)) m cfg file)"

section \<open>Worked examples\<close>

text \<open>
  A one-parameter network for worked examples: the prediction for a row is the parameter
  plus the sum of the row; an optimizer step subtracts the learning rate from the
  parameter.
\<close>

definition example_net :: "(real, real) net" where
  "example_net =
     \<lparr>forward = (\<lambda>p xs. map (\<lambda>r. p + sum_list r) xs),
      Adam = (\<lambda>lr wd. lr),
      update = (\<lambda>p opt xs ys. (p - opt, opt))\<rparr>"

definition example_config :: "int \<Rightarrow> int \<Rightarrow> config" where
  "example_config n patience =
     \<lparr>n_epochs = n, batch_size_cfg = 2, weight_decay = 0, lr = 0, early_stop = patience\<rparr>"

text \<open>
  Loaders for worked examples, each of one batch of one row \<open>[0]\<close>. The training target is
  \<open>3\<close> in every pass; the validation target is \<open>1\<close> in the first pass and \<open>3\<close> in the later
  ones. With the parameter at \<open>0\<close> and learning rate \<open>0\<close>, the validation loss is \<open>1\<close> in
  the first epoch and \<open>9\<close> afterwards.
\<close>

definition example_train_loader :: "nat \<Rightarrow> xy_batch pass" where
  "example_train_loader = (\<lambda>k. Inr [([[0]], [3])])"

definition example_valid_loader :: "nat \<Rightarrow> xy_batch pass" where
  "example_valid_loader = (\<lambda>k. Inr [([[0]], [if k = 0 then 1 else 3])])"

section \<open>Properties of the dataset\<close>

lemma tensor_getitem_nonneg:
  "0 \<le> i \<Longrightarrow> i < int (length t) \<Longrightarrow> tensor_getitem t i = Inr (t ! nat i)"
  by (simp add: tensor_getitem_def)

lemma tensor_getitem_neg:
  "i < 0 \<Longrightarrow> - int (length t) \<le> i \<Longrightarrow>
     tensor_getitem t i = Inr (t ! nat (int (length t) + i))"
  by (simp add: tensor_getitem_def)

lemma tensor_getitem_out:
  "int (length t) \<le> i \<or> i < - int (length t) \<Longrightarrow> tensor_getitem t i = Inl IndexError"
  by (auto simp add: tensor_getitem_def Let_def)

lemma getitem_nonneg:
  assumes "aligned d" and "0 \<le> i" and "i < int (len d)"
  shows "getitem d i = Inr (item_at d (nat i))"
  using assms
  by (auto simp add: getitem_def aligned_def len_def item_at_def tensor_getitem_nonneg
      split: option.splits)

lemma getitem_neg:
  assumes "aligned d" and "i < 0" and "- int (len d) \<le> i"
  shows "getitem d i = Inr (item_at d (nat (int (len d) + i)))"
  using assms
  by (auto simp add: getitem_def aligned_def len_def item_at_def tensor_getitem_neg
      split: option.splits)

lemma getitem_out:
  assumes "int (len d) \<le> i \<or> i < - int (len d)"
  shows "getitem d i = Inl IndexError"
  using assms
  by (auto simp add: getitem_def len_def tensor_getitem_out split: option.splits sum.splits)

text \<open>
  C4 (as the code has it). For a dataset of length \<open>L\<close> with one label per row when labels
  were supplied: \<open>getitem\<close> returns the \<open>i\<close>-th item (the row, paired with its label when
  labels were supplied) for \<open>0 \<le> i < L\<close>; for \<open>-L \<le> i < 0\<close> it does not fail but returns
  the item at position \<open>L + i\<close>, counting from the end; it fails with IndexError exactly
  for \<open>i \<ge> L\<close> and \<open>i < -L\<close>.
\<close>

theorem getitem_index_range:
  assumes "aligned d"
  shows "(0 \<le> i \<and> i < int (len d) \<longrightarrow> getitem d i = Inr (item_at d (nat i)))
       \<and> (- int (len d) \<le> i \<and> i < 0 \<longrightarrow> getitem d i = Inr (item_at d (nat (int (len d) + i))))
       \<and> ((\<exists>e. getitem d i = Inl e) \<longleftrightarrow> int (len d) \<le> i \<or> i < - int (len d))
       \<and> (int (len d) \<le> i \<or> i < - int (len d) \<longrightarrow> getitem d i = Inl IndexError)"
proof -
  consider (inside) "0 \<le> i" "i < int (len d)" | (wrapped) "- int (len d) \<le> i" "i < 0"
    | (outside) "int (len d) \<le> i \<or> i < - int (len d)"
    by linarith
  then show ?thesis
  proof cases
    case inside
    then show ?thesis using getitem_nonneg [OF assms, of i] by simp
  next
    case wrapped
    then show ?thesis using getitem_neg [OF assms, of i] by simp
  next
    case outside
    then show ?thesis using getitem_out [of d i] by auto
  qed
qed

theorem getitem_index_range_witness:
  "aligned \<lparr>x = [[1, 2], [3, 4], [5, 6]], y = Some [10, 20, 30]\<rparr>
   \<and> getitem \<lparr>x = [[1, 2], [3, 4], [5, 6]], y = Some [10, 20, 30]\<rparr> 1 = Inr (Labelled [3, 4] 20)
   \<and> getitem \<lparr>x = [[1, 2], [3, 4], [5, 6]], y = Some [10, 20, 30]\<rparr> (- 1) = Inr (Labelled [5, 6] 30)
   \<and> getitem \<lparr>x = [[1, 2], [3, 4], [5, 6]], y = Some [10, 20, 30]\<rparr> 3 = Inl IndexError
   \<and> getitem \<lparr>x = [[1, 2], [3, 4], [5, 6]], y = Some [10, 20, 30]\<rparr> (- 4) = Inl IndexError"
proof -
  let ?d = "\<lparr>x = [[1, 2], [3, 4], [5, 6]], y = Some [10, 20, 30]\<rparr>"
  have a: "aligned ?d" by (simp add: aligned_def)
  have l: "len ?d = 3" by (simp add: len_def)
  show ?thesis
    using a getitem_index_range [OF a, of 1] getitem_index_range [OF a, of "- 1"]
      getitem_index_range [OF a, of 3] getitem_index_range [OF a, of "- 4"]
    by (simp add: l item_at_def)
qed

text \<open>
  The claim as written, that \<open>getitem\<close> fails for every negative index, is false: index
  \<open>-1\<close> of a two-row dataset returns the last row.
\<close>

theorem getitem_negative_counterexample:
  "\<not> (\<forall>d i. i < 0 \<longrightarrow> (\<exists>e. getitem d i = Inl e))"
proof
  assume h: "\<forall>d i. i < 0 \<longrightarrow> (\<exists>e. getitem d i = Inl e)"
  have "getitem \<lparr>x = [[1], [2]], y = None\<rparr> (- 1) = Inr (Features [2])"
    by (simp add: getitem_def tensor_getitem_def)
  moreover from h have "\<exists>e. getitem \<lparr>x = [[1], [2]], y = None\<rparr> (- 1) = Inl e"
    by simp
  ultimately show False by simp
qed

section \<open>Properties of the split utility\<close>

lemma py_slice_take:
  "0 \<le> a \<Longrightarrow> a \<le> int (length xs) \<Longrightarrow> py_slice xs 0 a = take (nat a) xs"
  by (simp add: py_slice_def Let_def)

lemma py_slice_drop:
  "0 \<le> a \<Longrightarrow> a \<le> int (length xs) \<Longrightarrow> py_slice xs a (int (length xs)) = drop (nat a) xs"
  by (simp add: py_slice_def Let_def)

lemma bit_length_le: "n < 2 ^ w \<Longrightarrow> bit_length n \<le> w"
proof (induction n arbitrary: w rule: bit_length.induct)
  case (1 n)
  show ?case
  proof (cases "n = 0")
    case True
    then show ?thesis by (simp add: bit_length.simps)
  next
    case False
    then obtain w' where w: "w = Suc w'" using "1.prems" by (cases w) auto
    have "n div 2 < 2 ^ w'" using "1.prems" w by auto
    then have "bit_length (n div 2) \<le> w'" using "1.IH" False by simp
    then show ?thesis using False w by (simp add: bit_length.simps [of n])
  qed
qed

lemma round_half_even_bounds:
  shows "\<lfloor>q\<rfloor> \<le> round_half_even q" and "round_half_even q \<le> \<lceil>q\<rceil>"
proof -
  show "\<lfloor>q\<rfloor> \<le> round_half_even q" by (simp add: round_half_even_def Let_def)
  show "round_half_even q \<le> \<lceil>q\<rceil>"
  proof (cases "q = of_int \<lfloor>q\<rfloor>")
    case True
    then have "round_half_even q = \<lfloor>q\<rfloor>" by (simp add: round_half_even_def Let_def)
    then show ?thesis by (simp add: floor_le_ceiling)
  next
    case False
    then have "\<lceil>q\<rceil> = \<lfloor>q\<rfloor> + 1" by (simp add: ceiling_altdef)
    moreover have "round_half_even q \<le> \<lfloor>q\<rfloor> + 1" by (simp add: round_half_even_def Let_def)
    ultimately show ?thesis by simp
  qed
qed

lemma exponent64_le:
  assumes "0 \<le> v" and "v < 2 ^ 53"
  shows "exponent64 v \<le> 52"
proof (cases "1 \<le> v")
  case True
  have "nat \<lfloor>v\<rfloor> < 2 ^ 53"
    using assms by (simp add: nat_less_iff floor_less_iff)
  then have "bit_length (nat \<lfloor>v\<rfloor>) \<le> 53" by (rule bit_length_le)
  then show ?thesis using True assms(1) by (simp add: exponent64_def)
next
  case False
  then show ?thesis using assms(1) by (simp add: exponent64_def Let_def)
qed

lemma round64_bounds:
  assumes "0 \<le> v" and "v < 2 ^ 53"
  shows "of_int \<lfloor>v\<rfloor> \<le> round64 v" and "round64 v \<le> of_int \<lceil>v\<rceil>"
proof -
  let ?e = "exponent64 v - 52"
  have e: "?e \<le> 0" using exponent64_le [OF assms] by simp
  let ?j = "nat (- ?e)"
  let ?q = "v * 2 ^ ?j"
  have r: "round64 v = of_int (round_half_even ?q) / 2 ^ ?j"
  proof (cases "?e = 0")
    case True
    then show ?thesis by (simp add: round64_def)
  next
    case False
    then have "\<not> 0 \<le> ?e" using e by simp
    then show ?thesis by (simp add: round64_def Let_def)
  qed
  have "of_int (\<lfloor>v\<rfloor> * 2 ^ ?j) \<le> ?q" by (simp add: mult_right_mono)
  then have "\<lfloor>v\<rfloor> * 2 ^ ?j \<le> \<lfloor>?q\<rfloor>" by (simp only: le_floor_iff)
  then have lo: "\<lfloor>v\<rfloor> * 2 ^ ?j \<le> round_half_even ?q"
    using round_half_even_bounds(1) [of ?q] by simp
  have "?q \<le> of_int (\<lceil>v\<rceil> * 2 ^ ?j)" by (simp add: mult_right_mono)
  then have "\<lceil>?q\<rceil> \<le> \<lceil>v\<rceil> * 2 ^ ?j" by (simp only: ceiling_le_iff)
  then have hi: "round_half_even ?q \<le> \<lceil>v\<rceil> * 2 ^ ?j"
    using round_half_even_bounds(2) [of ?q] by simp
  have "of_int \<lfloor>v\<rfloor> * 2 ^ ?j \<le> (of_int (round_half_even ?q) :: real)"
    using lo by (metis of_int_le_iff of_int_mult of_int_numeral of_int_power)
  then show "of_int \<lfloor>v\<rfloor> \<le> round64 v"
    unfolding r by (simp add: le_divide_eq)
  have "(of_int (round_half_even ?q) :: real) \<le> of_int \<lceil>v\<rceil> * 2 ^ ?j"
    using hi by (metis of_int_le_iff of_int_mult of_int_numeral of_int_power)
  then show "round64 v \<le> of_int \<lceil>v\<rceil>"
    unfolding r by (simp add: divide_le_eq)
qed

lemma valid_set_size_bounds:
  assumes "0 \<le> r" and "r < 1" and "n < 2 ^ 53"
  shows "py_int (float_mul r (real n)) = \<lfloor>float_mul r (real n)\<rfloor>"
    and "\<lfloor>r * real n\<rfloor> \<le> py_int (float_mul r (real n))"
    and "py_int (float_mul r (real n)) \<le> \<lceil>r * real n\<rceil>"
    and "0 \<le> py_int (float_mul r (real n))"
    and "py_int (float_mul r (real n)) \<le> int n"
proof -
  let ?v = "r * real n"
  have nonneg: "0 \<le> ?v" using assms(1) by simp
  have le_n: "?v \<le> real n" using assms(1,2) by (simp add: mult_left_le_one_le)
  have "real n < 2 ^ 53" using assms(3) by (metis of_nat_less_iff of_nat_numeral of_nat_power)
  then have small: "?v < 2 ^ 53" using le_n by simp
  note b = round64_bounds [OF nonneg small]
  have fl0: "0 \<le> \<lfloor>?v\<rfloor>" using nonneg by simp
  then have r0: "0 \<le> round64 ?v" using b(1) by (meson of_int_0_le_iff order_trans)
  then show p: "py_int (float_mul r (real n)) = \<lfloor>float_mul r (real n)\<rfloor>"
    by (simp add: py_int_def float_mul_def)
  show lo: "\<lfloor>?v\<rfloor> \<le> py_int (float_mul r (real n))"
    unfolding p using b(1) by (simp add: float_mul_def le_floor_iff)
  have "\<lfloor>round64 ?v\<rfloor> \<le> \<lceil>?v\<rceil>"
    using b(2) by (metis floor_mono floor_of_int)
  then show hi: "py_int (float_mul r (real n)) \<le> \<lceil>?v\<rceil>"
    unfolding p by (simp add: float_mul_def)
  show "0 \<le> py_int (float_mul r (real n))" using lo fl0 by linarith
  have "\<lceil>?v\<rceil> \<le> int n" using le_n by (simp add: ceiling_le_iff)
  then show "py_int (float_mul r (real n)) \<le> int n" using hi by linarith
qed

lemma split_indices_take_drop:
  assumes "0 \<le> v" and "v \<le> int n" and "py_int (float_mul r (real n)) = v"
    and "length (fst (randperm T g n)) = n"
  shows "split_indices T n r g =
           Inr (take (n - nat v) (fst (randperm T g n)), drop (n - nat v) (fst (randperm T g n)))"
proof -
  let ?p = "fst (randperm T g n)"
  have a: "nat (int n - v) = n - nat v" using assms(1,2) by linarith
  have t: "py_slice ?p 0 (int n - v) = take (n - nat v) ?p"
    using py_slice_take [of "int n - v" ?p] assms(1,2,4) a by simp
  have d: "py_slice ?p (int n - v) (int n) = drop (n - nat v) ?p"
    using py_slice_drop [of "int n - v" ?p] assms(1,2,4) a by simp
  show ?thesis
    by (simp add: split_indices_def random_split_def assms(3) Let_def case_prod_beta t d)
qed

lemma permutation_length:
  assumes "distinct p" and "set p = {0..<n}"
  shows "length p = n"
  using assms distinct_card [of p] by simp

lemma take_drop_partition:
  assumes "distinct p" and "set p = {0..<n}"
  shows "distinct (take k p)" and "distinct (drop k p)"
    and "set (take k p) \<inter> set (drop k p) = {}"
    and "set (take k p) \<union> set (drop k p) = {0..<n}"
proof -
  show "distinct (take k p)" and "distinct (drop k p)" using assms(1) by simp_all
  show "set (take k p) \<inter> set (drop k p) = {}"
    using assms(1) by (rule set_take_disj_set_drop_if_distinct) simp
  have "set (take k p) \<union> set (drop k p) = set (take k p @ drop k p)"
    by (simp del: append_take_drop_id)
  then show "set (take k p) \<union> set (drop k p) = {0..<n}" using assms(2) by simp
qed

lemma Subset_rows_in_range:
  assumes "set idxs \<subseteq> {0..<length ds}"
  shows "Subset_rows ds idxs = Inr (map ((!) ds) idxs)"
  using assms by (auto simp add: Subset_rows_def list_all_iff)

text \<open>
  The split at a known validation size \<open>v\<close>: the training subset is the first \<open>N - v\<close>
  entries of the permutation and the validation subset the last \<open>v\<close>.
\<close>

lemma train_valid_split_at:
  assumes "0 \<le> v" and "v \<le> int (length ds)"
    and "py_int (float_mul r (real (length ds))) = v"
    and "distinct (fst (randperm T (manual_seed T seed) (length ds)))"
    and "set (fst (randperm T (manual_seed T seed) (length ds))) = {0..<length ds}"
  shows "\<exists>train_set valid_set.
           split_indices T (length ds) r (manual_seed T seed) = Inr (train_set, valid_set)
         \<and> fst (train_valid_split T ds r seed g) =
             Inr (map ((!) ds) train_set, map ((!) ds) valid_set)
         \<and> int (length valid_set) = v
         \<and> int (length train_set) = int (length ds) - v
         \<and> distinct train_set \<and> distinct valid_set
         \<and> set train_set \<inter> set valid_set = {}
         \<and> set train_set \<union> set valid_set = {0..<length ds}"
proof -
  let ?n = "length ds"
  let ?p = "fst (randperm T (manual_seed T seed) ?n)"
  let ?k = "?n - nat v"
  have len: "length ?p = ?n" using assms(4,5) by (rule permutation_length)
  have ix: "split_indices T ?n r (manual_seed T seed) = Inr (take ?k ?p, drop ?k ?p)"
    using assms(1,2,3) len by (rule split_indices_take_drop)
  note part = take_drop_partition [OF assms(4,5), of ?k]
  have sub: "set (take ?k ?p) \<subseteq> {0..<?n}" "set (drop ?k ?p) \<subseteq> {0..<?n}"
    using part(4) by auto
  have rows: "fst (train_valid_split T ds r seed g) =
      Inr (map ((!) ds) (take ?k ?p), map ((!) ds) (drop ?k ?p))"
    by (simp add: train_valid_split_def ix Subset_rows_in_range [OF sub(1)]
        Subset_rows_in_range [OF sub(2)])
  have lv: "int (length (drop ?k ?p)) = v"
    using assms(1,2) len by simp
  have lt: "int (length (take ?k ?p)) = int ?n - v"
    using assms(1,2) len by simp
  show ?thesis
    using ix rows lv lt part by blast
qed

text \<open>
  C5 (as the code has it). For a data set of length \<open>N < 2 ^ 53\<close> and a validation ratio
  \<open>0 \<le> r < 1\<close>, when the generator's \<open>randperm\<close> yields a permutation of \<open>0..N-1\<close>: the
  split succeeds; the validation subset has \<open>int(r * N)\<close> indices, the truncation of the
  binary64 product, which is \<open>\<lfloor>r N\<rfloor>\<close> or \<open>\<lceil>r N\<rceil>\<close>; the training subset has the remaining
  indices; the two index sets are disjoint, their union is \<open>{0..<N}\<close>, and the returned
  arrays are the rows at those indices.
\<close>

theorem train_valid_split_partition:
  assumes "0 \<le> r" and "r < 1" and "length ds < 2 ^ 53"
    and "distinct (fst (randperm T (manual_seed T seed) (length ds)))"
    and "set (fst (randperm T (manual_seed T seed) (length ds))) = {0..<length ds}"
  shows "\<exists>train_set valid_set.
           split_indices T (length ds) r (manual_seed T seed) = Inr (train_set, valid_set)
         \<and> fst (train_valid_split T ds r seed g) =
             Inr (map ((!) ds) train_set, map ((!) ds) valid_set)
         \<and> int (length valid_set) = py_int (float_mul r (real (length ds)))
         \<and> \<lfloor>r * real (length ds)\<rfloor> \<le> int (length valid_set)
         \<and> int (length valid_set) \<le> \<lceil>r * real (length ds)\<rceil>
         \<and> int (length train_set) = int (length ds) - int (length valid_set)
         \<and> distinct train_set \<and> distinct valid_set
         \<and> set train_set \<inter> set valid_set = {}
         \<and> set train_set \<union> set valid_set = {0..<length ds}"
proof -
  let ?v = "py_int (float_mul r (real (length ds)))"
  note b = valid_set_size_bounds [OF assms(1,2,3)]
  from train_valid_split_at [OF b(4,5) refl assms(4,5), of g]
  obtain train_set valid_set where
    s: "split_indices T (length ds) r (manual_seed T seed) = Inr (train_set, valid_set)"
      "fst (train_valid_split T ds r seed g) = Inr (map ((!) ds) train_set, map ((!) ds) valid_set)"
      "int (length valid_set) = ?v" "int (length train_set) = int (length ds) - ?v"
      "distinct train_set" "distinct valid_set" "set train_set \<inter> set valid_set = {}"
      "set train_set \<union> set valid_set = {0..<length ds}"
    by blast
  have "\<lfloor>r * real (length ds)\<rfloor> \<le> int (length valid_set)"
    and "int (length valid_set) \<le> \<lceil>r * real (length ds)\<rceil>"
    and "int (length train_set) = int (length ds) - int (length valid_set)"
    using b(2,3) s(3,4) by simp_all
  with s show ?thesis by blast
qed

theorem train_valid_split_partition_witness:
  "(0::real) \<le> 3602879701896397 / 18014398509481984
   \<and> (3602879701896397 / 18014398509481984 :: real) < 1
   \<and> length [10, 11, 12, 13, 14, 15, 16, 17, 18, 19 :: nat] < 2 ^ 53
   \<and> distinct (fst (randperm example_torch (manual_seed example_torch 233333) 10))
   \<and> set (fst (randperm example_torch (manual_seed example_torch 233333) 10)) = {0..<10}
   \<and> (\<exists>train_set valid_set.
         fst (train_valid_split example_torch [10, 11, 12, 13, 14, 15, 16, 17, 18, 19 :: nat]
                (3602879701896397 / 18014398509481984) 233333 0) =
           Inr (map ((!) [10, 11, 12, 13, 14, 15, 16, 17, 18, 19]) train_set,
                map ((!) [10, 11, 12, 13, 14, 15, 16, 17, 18, 19]) valid_set)
       \<and> length valid_set = 2 \<and> length train_set = 8
       \<and> distinct train_set \<and> distinct valid_set
       \<and> set train_set \<inter> set valid_set = {}
       \<and> set train_set \<union> set valid_set = {0..<10})"
proof -
  let ?ds = "[10, 11, 12, 13, 14, 15, 16, 17, 18, 19 :: nat]"
  let ?r = "3602879701896397 / 18014398509481984 :: real"
  have n: "length ?ds = 10" by simp
  have p: "fst (randperm example_torch (manual_seed example_torch 233333) 10) = rev [0..<10]"
    by (simp add: example_torch_def)
  have d: "distinct (fst (randperm example_torch (manual_seed example_torch 233333) (length ?ds)))"
    unfolding n p by simp
  have s: "set (fst (randperm example_torch (manual_seed example_torch 233333) (length ?ds))) = {0..<length ?ds}"
    unfolding n p by simp
  have r: "(0::real) \<le> ?r" "?r < 1" by simp_all
  have l: "length ?ds < 2 ^ 53" by simp
  have e: "exponent64 (?r * real (length ?ds)) = 1"
    by (simp add: exponent64_def bit_length.simps)
  have m: "float_mul ?r (real (length ?ds)) = 2"
    unfolding float_mul_def round64_def e Let_def by (simp add: round_half_even_def Let_def)
  have v: "py_int (float_mul ?r (real (length ?ds))) = 2"
    unfolding m by (simp add: py_int_def)
  from train_valid_split_partition [OF r l d s, of 0]
  obtain train_set valid_set where
    o: "fst (train_valid_split example_torch ?ds ?r 233333 0) =
       Inr (map ((!) ?ds) train_set, map ((!) ?ds) valid_set)"
    "int (length valid_set) = py_int (float_mul ?r (real (length ?ds)))"
    "int (length train_set) = int (length ?ds) - int (length valid_set)"
    "distinct train_set" "distinct valid_set"
    "set train_set \<inter> set valid_set = {}"
    "set train_set \<union> set valid_set = {0..<length ?ds}"
    by blast
  have lv: "length valid_set = 2" using o(2) v by simp
  have lt: "length train_set = 8" using o(3) lv by simp
  have "fst (train_valid_split example_torch ?ds ?r 233333 0) =
           Inr (map ((!) ?ds) train_set, map ((!) ?ds) valid_set)
       \<and> length valid_set = 2 \<and> length train_set = 8
       \<and> distinct train_set \<and> distinct valid_set
       \<and> set train_set \<inter> set valid_set = {}
       \<and> set train_set \<union> set valid_set = {0..<10}"
    using o(1,4,5,6) o(7) [unfolded n] lv lt by blast
  then show ?thesis using r l d s unfolding n by blast
qed

text \<open>
  The claim as written, that the validation subset has exactly \<open>\<lfloor>r N\<rfloor>\<close> indices, fails:
  for the binary64 number nearest to \<open>0.7\<close>, which is \<open>3152519739159347 / 2 ^ 52\<close>, and
  \<open>N = 10\<close>, the exact product is \<open>7 - 2 ^ -51\<close>, of floor \<open>6\<close>; the binary64 product
  rounds to \<open>7\<close>, and the split has \<open>7\<close> validation rows and \<open>3\<close> training rows.
\<close>

theorem train_valid_split_partition_counterexample:
  "(0::real) \<le> 3152519739159347 / 4503599627370496
   \<and> (3152519739159347 / 4503599627370496 :: real) < 1
   \<and> \<lfloor>(3152519739159347 / 4503599627370496 :: real) * real (10::nat)\<rfloor> = 6
   \<and> (\<exists>train_set valid_set.
         fst (train_valid_split example_torch [10, 11, 12, 13, 14, 15, 16, 17, 18, 19 :: nat]
                (3152519739159347 / 4503599627370496) 233333 0) =
           Inr (map ((!) [10, 11, 12, 13, 14, 15, 16, 17, 18, 19]) train_set,
                map ((!) [10, 11, 12, 13, 14, 15, 16, 17, 18, 19]) valid_set)
       \<and> length valid_set = 7 \<and> length train_set = 3)"
proof -
  let ?ds = "[10, 11, 12, 13, 14, 15, 16, 17, 18, 19 :: nat]"
  let ?r = "3152519739159347 / 4503599627370496 :: real"
  have n: "length ?ds = 10" by simp
  have p: "fst (randperm example_torch (manual_seed example_torch 233333) 10) = rev [0..<10]"
    by (simp add: example_torch_def)
  have d: "distinct (fst (randperm example_torch (manual_seed example_torch 233333) (length ?ds)))"
    unfolding n p by simp
  have s: "set (fst (randperm example_torch (manual_seed example_torch 233333) (length ?ds))) = {0..<length ?ds}"
    unfolding n p by simp
  have e: "exponent64 (?r * real (length ?ds)) = 2"
    by (simp add: exponent64_def bit_length.simps)
  have m: "float_mul ?r (real (length ?ds)) = 7"
    unfolding float_mul_def round64_def e Let_def by (simp add: round_half_even_def Let_def)
  have v: "py_int (float_mul ?r (real (length ?ds))) = 7"
    unfolding m by (simp add: py_int_def)
  have b: "(0::int) \<le> 7" "(7::int) \<le> int (length ?ds)" by simp_all
  from train_valid_split_at [OF b v d s, of 0]
  obtain train_set valid_set where
    "fst (train_valid_split example_torch ?ds ?r 233333 0) =
       Inr (map ((!) ?ds) train_set, map ((!) ?ds) valid_set)"
    "int (length valid_set) = 7" "int (length train_set) = int (length ?ds) - 7"
    by blast
  then have "fst (train_valid_split example_torch ?ds ?r 233333 0) =
           Inr (map ((!) ?ds) train_set, map ((!) ?ds) valid_set)
       \<and> length valid_set = 7 \<and> length train_set = 3"
    by simp
  moreover have "\<lfloor>?r * real (10::nat)\<rfloor> = 6" by simp
  ultimately show ?thesis by fastforce
qed

text \<open>
  C8. The split draws from a generator that it creates from the seed inside the call;
  the default generator of the process plays no part. So the result is the same whatever
  state the default generator is in, the call leaves that state as it found it, and a
  second invocation with the same seed, ratio and data set, made after the first and
  after any use \<open>between\<close> of the default generator, returns the same pair of arrays in
  the same order. (That \<open>randperm\<close> on a generator in a given state is itself
  deterministic is the framework's property, held by the parameter \<open>T\<close>.)
\<close>

theorem train_valid_split_deterministic:
  "fst (train_valid_split T ds r seed g1) = fst (train_valid_split T ds r seed g2)
   \<and> snd (train_valid_split T ds r seed g1) = g1
   \<and> fst (train_valid_split T ds r seed (between (snd (train_valid_split T ds r seed g1)))) =
       fst (train_valid_split T ds r seed g1)"
  by (simp add: train_valid_split_def split: sum.splits prod.splits)

section \<open>Properties of the trainer\<close>

lemma train_batches_record:
  "length (snd (train_batches N bs s rec)) = length rec + length bs"
  by (induction bs arbitrary: s rec) (simp_all add: Let_def split: prod.splits)

lemma train_batches_keeps:
  "best_loss (fst (train_batches N bs s rec)) = best_loss s
   \<and> early_stop_count (fst (train_batches N bs s rec)) = early_stop_count s
   \<and> checkpoint (fst (train_batches N bs s rec)) = checkpoint s
   \<and> writer (fst (train_batches N bs s rec)) = writer s
   \<and> pbar (fst (train_batches N bs s rec)) = pbar s
   \<and> stdout (fst (train_batches N bs s rec)) = stdout s
   \<and> step (fst (train_batches N bs s rec)) = step s + length bs"
  by (induction bs arbitrary: s rec) (simp_all add: Let_def split: prod.splits)

lemma mean_loss_value: "rec \<noteq> [] \<Longrightarrow> mean_loss rec = Inr (sum_list rec / real (length rec))"
  by (simp add: mean_loss_def)

lemma train_phase_empty: "train_phase N (Inr []) s = Inl ZeroDivisionError"
  by (simp add: train_phase_def mean_loss_def)

lemma train_phase_nonempty:
  assumes "bs \<noteq> []"
  shows "\<exists>s1. train_phase N (Inr bs) s = Inr s1"
proof -
  obtain s' rec where tb: "train_batches N bs (s\<lparr>model := (model s)\<lparr>training := True\<rparr>\<rparr>) [] = (s', rec)"
    by (cases "train_batches N bs (s\<lparr>model := (model s)\<lparr>training := True\<rparr>\<rparr>) []")
  have "length rec = length bs"
    using train_batches_record [of N bs "s\<lparr>model := (model s)\<lparr>training := True\<rparr>\<rparr>" "[]"] tb by simp
  then have "rec \<noteq> []" using assms by auto
  then show ?thesis
    by (simp add: train_phase_def tb mean_loss_value)
qed

lemma train_phase_keeps:
  assumes "train_phase N batches s = Inr s1"
  shows "best_loss s1 = best_loss s" and "early_stop_count s1 = early_stop_count s"
    and "checkpoint s1 = checkpoint s" and "pbar s1 = pbar s" and "stdout s1 = stdout s"
proof -
  obtain bs where b: "batches = Inr bs" using assms by (cases batches) (simp_all add: train_phase_def)
  obtain s' rec where tb: "train_batches N bs (s\<lparr>model := (model s)\<lparr>training := True\<rparr>\<rparr>) [] = (s', rec)"
    by (cases "train_batches N bs (s\<lparr>model := (model s)\<lparr>training := True\<rparr>\<rparr>) []")
  note k = train_batches_keeps [of N bs "s\<lparr>model := (model s)\<lparr>training := True\<rparr>\<rparr>" "[]", unfolded tb]
  from assms b tb obtain m where s1: "s1 = s'\<lparr>writer := writer s' @ [(''Loss/train'', m, step s')]\<rparr>"
    by (auto simp add: train_phase_def split: sum.splits)
  show "best_loss s1 = best_loss s" and "early_stop_count s1 = early_stop_count s"
    and "checkpoint s1 = checkpoint s" and "pbar s1 = pbar s" and "stdout s1 = stdout s"
    using k by (simp_all add: s1)
qed

lemma valid_phase_empty: "valid_phase N (Inr []) p = Inl ZeroDivisionError"
  by (simp add: valid_phase_def mean_loss_def)

lemma valid_phase_nonempty: "bs \<noteq> [] \<Longrightarrow> \<exists>v. valid_phase N (Inr bs) p = Inr v"
  by (simp add: valid_phase_def mean_loss_def)

lemma track_best_improved:
  assumes "v < best_loss s"
  shows "best_loss (track_best cfg epoch v s) = v"
    and "checkpoint (track_best cfg epoch v s) = Some (params (model s))"
    and "early_stop_count (track_best cfg epoch v s) = 0"
  using assms by (simp_all add: track_best_def Let_def)

lemma track_best_stalled:
  assumes "\<not> v < best_loss s"
  shows "best_loss (track_best cfg epoch v s) = best_loss s"
    and "checkpoint (track_best cfg epoch v s) = checkpoint s"
    and "early_stop_count (track_best cfg epoch v s) = early_stop_count s + 1"
  using assms by (simp_all add: track_best_def Let_def)

lemma track_best_keeps:
  "params (model (track_best cfg epoch v s)) = params (model s)"
  "pbar (track_best cfg epoch v s) = Some (epoch + 1, n_epochs cfg)"
  "stdout (track_best cfg epoch v s) = stdout s"
  "writer (track_best cfg epoch v s) = writer s @ [(''Loss/valid'', v, step s)]"
  by (simp_all add: track_best_def Let_def)

lemma valid_log_train_phase:
  assumes "train_phase N batches s = Inr s1"
  shows "valid_log s1 = valid_log s"
proof -
  obtain bs where b: "batches = Inr bs" using assms by (cases batches) (simp_all add: train_phase_def)
  obtain s' rec where tb: "train_batches N bs (s\<lparr>model := (model s)\<lparr>training := True\<rparr>\<rparr>) [] = (s', rec)"
    by (cases "train_batches N bs (s\<lparr>model := (model s)\<lparr>training := True\<rparr>\<rparr>) []")
  note k = train_batches_keeps [of N bs "s\<lparr>model := (model s)\<lparr>training := True\<rparr>\<rparr>" "[]", unfolded tb]
  from assms b tb obtain mt where s1: "s1 = s'\<lparr>writer := writer s' @ [(''Loss/train'', mt, step s')]\<rparr>"
    by (auto simp add: train_phase_def split: sum.splits)
  show ?thesis using k by (simp add: s1 valid_log_def)
qed

text \<open>
  A completed epoch: \<open>s1\<close> is the state between the two halves, in which the bookkeeping
  variables are those the epoch started with.
\<close>

lemma run_epoch_Inr:
  assumes "run_epoch N tr va cfg epoch s = Inr s'"
  obtains s1 v where "epoch_valid_loss N tr va epoch s = Inr v"
    and "s' = track_best cfg epoch v s1"
    and "best_loss s1 = best_loss s" and "early_stop_count s1 = early_stop_count s"
    and "checkpoint s1 = checkpoint s" and "pbar s1 = pbar s" and "stdout s1 = stdout s"
    and "valid_log s1 = valid_log s"
proof -
  from assms obtain s0 v where tp: "train_phase N (tr epoch) s = Inr s0"
    and vp: "valid_phase N (va epoch) (params (model s0)) = Inr v"
    and s': "s' = track_best cfg epoch v (s0\<lparr>model := (model s0)\<lparr>training := False\<rparr>\<rparr>)"
    by (auto simp add: run_epoch_def Let_def split: sum.splits)
  let ?s1 = "s0\<lparr>model := (model s0)\<lparr>training := False\<rparr>\<rparr>"
  note k = train_phase_keeps [OF tp]
  have "epoch_valid_loss N tr va epoch s = Inr v"
    using tp vp by (simp add: epoch_valid_loss_def)
  moreover have "valid_log ?s1 = valid_log s"
    using valid_log_train_phase [OF tp] by (simp add: valid_log_def)
  ultimately show ?thesis using that [of v ?s1] s' k by simp
qed

lemma init_fields:
  "best_loss (trainer_init N m cfg file) = 2 ^ 64"
  "early_stop_count (trainer_init N m cfg file) = 0"
  "step (trainer_init N m cfg file) = 0"
  "checkpoint (trainer_init N m cfg file) = file"
  "writer (trainer_init N m cfg file) = []"
  "stdout (trainer_init N m cfg file) = []"
  "pbar (trainer_init N m cfg file) = None"
  "model (trainer_init N m cfg file) = m"
  by (simp_all add: trainer_init_def)

lemma run_epoch_empty_train:
  "tr epoch = Inr [] \<Longrightarrow> run_epoch N tr va cfg epoch s = Inl ZeroDivisionError"
  by (simp add: run_epoch_def train_phase_empty)

lemma run_epoch_empty_valid:
  assumes "tr epoch = Inr bs" and "va epoch = Inr []"
  shows "run_epoch N tr va cfg epoch s = Inl ZeroDivisionError"
proof (cases "bs = []")
  case True
  then show ?thesis using assms(1) by (simp add: run_epoch_empty_train)
next
  case False
  then obtain s1 where "train_phase N (Inr bs) s = Inr s1"
    using train_phase_nonempty [of bs N s] by blast
  then show ?thesis using assms by (simp add: run_epoch_def valid_phase_empty)
qed

lemma run_epoch_nonempty:
  assumes "tr epoch = Inr bs" and "bs \<noteq> []" and "va epoch = Inr cs" and "cs \<noteq> []"
  shows "\<exists>s'. run_epoch N tr va cfg epoch s = Inr s'"
proof -
  obtain s1 where t: "train_phase N (Inr bs) s = Inr s1"
    using train_phase_nonempty [OF assms(2), of N s] by blast
  obtain v where "valid_phase N (Inr cs) (params (model s1)) = Inr v"
    using valid_phase_nonempty [OF assms(4), of N "params (model s1)"] by blast
  then show ?thesis using assms(1,3) t by (simp add: run_epoch_def)
qed

lemma trainer_loop_error:
  assumes "int epoch < n_epochs cfg" and "run_epoch N tr va cfg epoch s = Inl e"
  shows "trainer_loop N tr va cfg epoch s = Inl e"
  using assms by (simp add: trainer_loop.simps [of N tr va cfg epoch s])

lemma trainer_loop_halt:
  assumes "int epoch < n_epochs cfg" and "run_epoch N tr va cfg epoch s = Inr s'"
    and "early_stop cfg \<le> int (early_stop_count s')"
  shows "trainer_loop N tr va cfg epoch s = Inr (halt s')"
  using assms by (simp add: trainer_loop.simps [of N tr va cfg epoch s])

lemma trainer_loop_continue:
  assumes "int epoch < n_epochs cfg" and "run_epoch N tr va cfg epoch s = Inr s'"
    and "int (early_stop_count s') < early_stop cfg"
  shows "trainer_loop N tr va cfg epoch s = trainer_loop N tr va cfg (Suc epoch) s'"
  using assms by (simp add: trainer_loop.simps [of N tr va cfg epoch s])

lemma trainer_loop_exhausted:
  "\<not> int epoch < n_epochs cfg \<Longrightarrow> trainer_loop N tr va cfg epoch s = Inr s"
  by (simp add: trainer_loop.simps [of N tr va cfg epoch s])

lemma trainer_loop_returns:
  assumes "\<And>e. int e < n_epochs cfg \<Longrightarrow>
             (\<exists>bs. tr e = Inr bs \<and> bs \<noteq> []) \<and> (\<exists>cs. va e = Inr cs \<and> cs \<noteq> [])"
  shows "\<exists>s'. trainer_loop N tr va cfg epoch s = Inr s'"
proof (induction "nat (n_epochs cfg) - epoch" arbitrary: epoch s)
  case 0
  then have "\<not> int epoch < n_epochs cfg" by linarith
  then show ?case by (simp add: trainer_loop_exhausted)
next
  case (Suc k)
  then have lt: "int epoch < n_epochs cfg" by linarith
  from assms [OF lt] obtain bs cs where "tr epoch = Inr bs" "bs \<noteq> []" "va epoch = Inr cs" "cs \<noteq> []"
    by blast
  then obtain s1 where r: "run_epoch N tr va cfg epoch s = Inr s1"
    using run_epoch_nonempty [of tr epoch bs va cs N cfg s] by blast
  show ?case
  proof (cases "early_stop cfg \<le> int (early_stop_count s1)")
    case True
    then show ?thesis using trainer_loop_halt [OF lt r] by simp
  next
    case False
    then have "trainer_loop N tr va cfg epoch s = trainer_loop N tr va cfg (Suc epoch) s1"
      using trainer_loop_continue [OF lt r] by simp
    moreover have "k = nat (n_epochs cfg) - Suc epoch" using Suc(2) by linarith
    ultimately show ?thesis using Suc(1) [of "Suc epoch" s1] by simp
  qed
qed

lemma batch_sampler_nonempty:
  "batch @ order \<noteq> [] \<Longrightarrow> batch_sampler bsize batch order \<noteq> []"
  by (induction order arbitrary: batch) auto

lemma batch_sampler_concat:
  "concat (batch_sampler bsize batch order) = batch @ order"
  by (induction order arbitrary: batch) auto

lemma collect_map_Inr:
  "(\<And>a. a \<in> set as \<Longrightarrow> f a = Inr (g a)) \<Longrightarrow> collect (map f as) = Inr (map g as)"
  by (induction as) auto

lemma DataLoader_iter_in_range:
  assumes "aligned (dataset l)" and "set (sampler_order l drawn) \<subseteq> {0..<len (dataset l)}"
    and "0 < batch_size l" and "shuffle l \<longrightarrow> 0 < len (dataset l)"
  shows "DataLoader_iter l drawn =
           Inr (map (map (item_at (dataset l))) (batch_sampler (batch_size l) [] (sampler_order l drawn)))"
proof -
  let ?bs = "batch_sampler (batch_size l) [] (sampler_order l drawn)"
  have inner: "collect (map (\<lambda>idx. getitem (dataset l) (int idx)) b) = Inr (map (item_at (dataset l)) b)"
    if "b \<in> set ?bs" for b
  proof (rule collect_map_Inr)
    fix a assume "a \<in> set b"
    then have "a \<in> set (concat ?bs)" using that by auto
    then have "a < len (dataset l)" using assms(2) by (auto simp add: batch_sampler_concat)
    then show "getitem (dataset l) (int a) = Inr (item_at (dataset l) a)"
      using getitem_nonneg [OF assms(1), of "int a"] by simp
  qed
  have "collect (map (\<lambda>batch. collect (map (\<lambda>idx. getitem (dataset l) (int idx)) batch)) ?bs) =
      Inr (map (map (item_at (dataset l))) ?bs)"
    by (rule collect_map_Inr) (rule inner)
  then show ?thesis
    using assms(3,4) by (simp add: DataLoader_iter_def)
qed

lemma sampler_order_in_range:
  assumes "shuffle l \<longrightarrow> set drawn = {0..<len (dataset l)}"
  shows "set (sampler_order l drawn) = {0..<len (dataset l)}"
  using assms by (auto simp add: sampler_order_def)

lemma xy_pass_nonempty:
  assumes "0 < len (dataset l)" and "aligned (dataset l)"
    and "shuffle l \<longrightarrow> set drawn = {0..<len (dataset l)}" and "0 < batch_size l"
  shows "\<exists>bs. xy_pass l drawn = Inr bs \<and> bs \<noteq> []"
proof -
  have so: "set (sampler_order l drawn) = {0..<len (dataset l)}"
    using assms(3) by (rule sampler_order_in_range)
  then have ne: "sampler_order l drawn \<noteq> []" using assms(1) by auto
  have "DataLoader_iter l drawn =
      Inr (map (map (item_at (dataset l))) (batch_sampler (batch_size l) [] (sampler_order l drawn)))"
    using assms(1,2,4) so by (intro DataLoader_iter_in_range) simp_all
  moreover have "batch_sampler (batch_size l) [] (sampler_order l drawn) \<noteq> []"
    using ne by (intro batch_sampler_nonempty) simp
  ultimately show ?thesis by (simp add: xy_pass_def)
qed

lemma xy_pass_empty:
  assumes "len (dataset l) = 0" and "\<not> shuffle l" and "0 < batch_size l"
  shows "xy_pass l drawn = Inr []"
  using assms by (simp add: xy_pass_def DataLoader_iter_def sampler_order_def)

lemma valid_log_track_best: "valid_log (track_best cfg epoch v s) = valid_log s @ [v]"
  by (simp add: valid_log_def track_best_def Let_def)

lemma halt_fields:
  "pbar (halt s) = pbar s" "stdout (halt s) = stdout s @ [''Trining end.'']"
  "valid_log (halt s) = valid_log s" "early_stop_count (halt s) = early_stop_count s"
  "checkpoint (halt s) = checkpoint s" "best_loss (halt s) = best_loss s"
  "model (halt s) = model s"
  by (simp_all add: halt_def valid_log_def)

lemma run_epoch_stalled:
  assumes "epoch_valid_loss N tr va epoch s = Inr v" and "\<not> v < best_loss s"
    and "run_epoch N tr va cfg epoch s = Inr s'"
  shows "early_stop_count s' = early_stop_count s + 1" and "best_loss s' = best_loss s"
    and "checkpoint s' = checkpoint s" and "pbar s' = Some (epoch + 1, n_epochs cfg)"
proof -
  from assms(3) obtain s1 u where
    ev: "epoch_valid_loss N tr va epoch s = Inr u" and s': "s' = track_best cfg epoch u s1"
    and k: "best_loss s1 = best_loss s" "early_stop_count s1 = early_stop_count s"
      "checkpoint s1 = checkpoint s" "pbar s1 = pbar s" "stdout s1 = stdout s"
    and vl: "valid_log s1 = valid_log s"
    by (rule run_epoch_Inr)
  from ev assms(1) have u: "u = v" by simp
  have nb: "\<not> v < best_loss s1" using assms(2) k(1) by simp
  show "early_stop_count s' = early_stop_count s + 1" and "best_loss s' = best_loss s"
    and "checkpoint s' = checkpoint s" and "pbar s' = Some (epoch + 1, n_epochs cfg)"
    using track_best_stalled [OF nb, of cfg epoch] track_best_keeps(2) [of cfg epoch v s1] k
    by (simp_all add: s' u)
qed

lemma run_epoch_improved:
  assumes "epoch_valid_loss N tr va epoch s = Inr v" and "v < best_loss s"
    and "run_epoch N tr va cfg epoch s = Inr s'"
  shows "early_stop_count s' = 0" and "best_loss s' = v"
    and "checkpoint s' = Some (params (model s'))" and "pbar s' = Some (epoch + 1, n_epochs cfg)"
proof -
  from assms(3) obtain s1 u where
    ev: "epoch_valid_loss N tr va epoch s = Inr u" and s': "s' = track_best cfg epoch u s1"
    and k: "best_loss s1 = best_loss s" "early_stop_count s1 = early_stop_count s"
      "checkpoint s1 = checkpoint s" "pbar s1 = pbar s" "stdout s1 = stdout s"
    and vl: "valid_log s1 = valid_log s"
    by (rule run_epoch_Inr)
  from ev assms(1) have u: "u = v" by simp
  have nb: "v < best_loss s1" using assms(2) k(1) by simp
  show "early_stop_count s' = 0" and "best_loss s' = v"
    and "checkpoint s' = Some (params (model s'))" and "pbar s' = Some (epoch + 1, n_epochs cfg)"
    using track_best_improved [OF nb, of cfg epoch] track_best_keeps(1,2) [of cfg epoch v s1]
    by (simp_all add: s' u)
qed

lemma stalled_run:
  assumes "1 \<le> k" and "early_stop cfg = int (early_stop_count s + k)"
    and "stalled N tr va cfg k epoch s" and "int (epoch + k) \<le> n_epochs cfg"
  shows "\<exists>s'. after_epochs N tr va cfg k epoch s = Inr s'
           \<and> trainer_loop N tr va cfg epoch s = Inr (halt s')
           \<and> early_stop_count s' = early_stop_count s + k
           \<and> pbar s' = Some (epoch + k, n_epochs cfg)"
  using assms
proof (induction k arbitrary: epoch s)
  case 0
  then show ?case by simp
next
  case (Suc k)
  from Suc.prems(3) obtain v s1 where ev: "epoch_valid_loss N tr va epoch s = Inr v"
    and nb: "\<not> v < best_loss s" and re: "run_epoch N tr va cfg epoch s = Inr s1"
    and st: "stalled N tr va cfg k (Suc epoch) s1"
    by (auto split: sum.splits)
  note f = run_epoch_stalled [OF ev nb re]
  have lt: "int epoch < n_epochs cfg" using Suc.prems(4) by simp
  show ?case
  proof (cases k)
    case 0
    have "early_stop cfg \<le> int (early_stop_count s1)" using Suc.prems(2) f(1) 0 by simp
    then have "trainer_loop N tr va cfg epoch s = Inr (halt s1)"
      using trainer_loop_halt [OF lt re] by simp
    then show ?thesis using re f 0 by simp
  next
    case (Suc j)
    have "int (early_stop_count s1) < early_stop cfg" using Suc.prems(2) f(1) Suc by simp
    then have step: "trainer_loop N tr va cfg epoch s = trainer_loop N tr va cfg (Suc epoch) s1"
      using trainer_loop_continue [OF lt re] by simp
    have "\<exists>s'. after_epochs N tr va cfg k (Suc epoch) s1 = Inr s'
           \<and> trainer_loop N tr va cfg (Suc epoch) s1 = Inr (halt s')
           \<and> early_stop_count s' = early_stop_count s1 + k
           \<and> pbar s' = Some (Suc epoch + k, n_epochs cfg)"
      using Suc.IH [of s1 "Suc epoch"] Suc.prems(2,4) f(1) st Suc by simp
    then show ?thesis using step re f(1) by auto
  qed
qed

lemma best_less_iff:
  "v < Min (insert (2 ^ 64) (fst ` set h)) \<longleftrightarrow> v < 2 ^ 64 \<and> (\<forall>u \<in> fst ` set h. v < u)"
  by (simp add: Min_gr_iff)

lemma Min_snoc:
  "Min (insert b (fst ` set (h @ [(v, p)]))) = min v (Min (insert b (fst ` set h)))"
proof -
  have "insert b (fst ` set (h @ [(v, p)])) = insert v (insert b (fst ` set h))" by auto
  then show ?thesis by (simp only: Min_insert finite_insert finite_imageI finite_set insert_not_empty not_False_eq_True)
qed

lemma ckpt_inv_init: "ckpt_inv file [] (trainer_init N m cfg file)"
  by (simp add: ckpt_inv_def valid_log_def best_checkpoint_def init_fields)

lemma find_snoc_fresh:
  "(\<And>a. a \<in> set xs \<Longrightarrow> \<not> P a) \<Longrightarrow> P b \<Longrightarrow> find P (xs @ [b]) = Some b"
  by (induction xs) auto

lemma find_append_left:
  "(\<exists>a \<in> set xs. P a) \<Longrightarrow> find P (xs @ ys) = find P xs"
  by (induction xs) auto

lemma best_checkpoint_improved:
  assumes "v < 2 ^ 64" and "\<forall>u \<in> fst ` set h. v < u"
  shows "best_checkpoint file (h @ [(v, p)]) = Some p"
proof -
  have "Min (insert v (fst ` set h)) = v"
    using assms(2) by (intro Min_eqI) auto
  moreover have "fst ` set (h @ [(v, p)]) = insert v (fst ` set h)" by auto
  ultimately have m: "Min (fst ` set (h @ [(v, p)])) = v" by simp
  have f: "find (\<lambda>(u, q). u = v) (h @ [(v, p)]) = Some (v, p)"
    using assms(2) by (intro find_snoc_fresh) auto
  have l: "list_ex (\<lambda>(u, q). u < 2 ^ 64) (h @ [(v, p)])"
    using assms(1) by (simp add: list_ex_iff)
  show ?thesis
    unfolding best_checkpoint_def m using l f by simp
qed

lemma best_checkpoint_stalled:
  assumes "\<not> (v < 2 ^ 64 \<and> (\<forall>u \<in> fst ` set h. v < u))"
  shows "best_checkpoint file (h @ [(v, p)]) = best_checkpoint file h"
proof (cases "list_ex (\<lambda>(u, q). u < 2 ^ 64) h")
  case True
  then obtain u0 q0 where u0: "(u0, q0) \<in> set h" "u0 < 2 ^ 64"
    by (auto simp add: list_ex_iff)
  let ?A = "fst ` set h"
  let ?M = "Min ?A"
  have fin: "finite ?A" by simp
  have u0A: "u0 \<in> ?A" using u0(1) by (auto intro: rev_image_eqI)
  then have ne: "?A \<noteq> {}" by auto
  have Mle: "?M \<le> u0" using fin u0A by (rule Min_le)
  have Min_in: "?M \<in> ?A" using fin ne by (rule Min_in)
  have Mv: "?M \<le> v"
  proof (cases "v < 2 ^ 64")
    case True
    with assms obtain u where u: "u \<in> ?A" "\<not> v < u" by blast
    have "?M \<le> u" using fin u(1) by (rule Min_le)
    with u(2) show ?thesis by simp
  next
    case False
    then show ?thesis using Mle u0(2) by simp
  qed
  have "fst ` set (h @ [(v, p)]) = insert v ?A" by auto
  then have "Min (fst ` set (h @ [(v, p)])) = min v ?M"
    using Min_insert [OF fin ne, of v] by simp
  then have m: "Min (fst ` set (h @ [(v, p)])) = ?M" using Mv by (simp add: min_def)
  obtain q where "(?M, q) \<in> set h" using Min_in by auto
  then have f: "find (\<lambda>(u, q). u = ?M) (h @ [(v, p)]) = find (\<lambda>(u, q). u = ?M) h"
    by (intro find_append_left) auto
  have l: "list_ex (\<lambda>(u, q). u < 2 ^ 64) (h @ [(v, p)])"
    using True by (simp add: list_ex_iff)
  show ?thesis
    unfolding best_checkpoint_def m using l True f by simp
next
  case False
  have nlt: "\<not> v < 2 ^ 64"
  proof
    assume lt: "v < 2 ^ 64"
    with assms obtain u where u: "u \<in> fst ` set h" "\<not> v < u" by blast
    from False u(1) have "\<not> u < 2 ^ 64" by (auto simp add: list_ex_iff)
    with u(2) lt show False by simp
  qed
  have "\<not> list_ex (\<lambda>(u, q). u < 2 ^ 64) (h @ [(v, p)])"
    using False nlt by (simp add: list_ex_iff)
  then show ?thesis using False by (simp add: best_checkpoint_def)
qed


lemma best_checkpoint_argmin:
  assumes "list_ex (\<lambda>(v, p). v < 2 ^ 64) h"
  shows "\<exists>j < length h. best_checkpoint file h = Some (snd (h ! j))
           \<and> fst (h ! j) = Min (fst ` set h)
           \<and> (\<forall>i < j. fst (h ! i) \<noteq> Min (fst ` set h))"
proof -
  let ?M = "Min (fst ` set h)"
  from assms have "set h \<noteq> {}" by (auto simp add: list_ex_iff)
  then have "?M \<in> fst ` set h" by (intro Min_in) simp_all
  then obtain q where "(?M, q) \<in> set h" by auto
  then have "find (\<lambda>(v, p). v = ?M) h \<noteq> None"
    by (auto simp add: find_None_iff)
  then obtain e where f: "find (\<lambda>(v, p). v = ?M) h = Some e" by auto
  then obtain j where j: "j < length h" "fst (h ! j) = ?M" "e = h ! j"
    "\<forall>i < j. fst (h ! i) \<noteq> ?M"
    by (auto simp add: find_Some_iff case_prod_beta)
  have "best_checkpoint file h = Some (snd (h ! j))"
    using assms f j(3) by (simp add: best_checkpoint_def)
  then show ?thesis using j by blast
qed

lemma ckpt_inv_step:
  assumes inv: "ckpt_inv file h s"
    and ev: "epoch_valid_loss N tr va epoch s = Inr v"
    and re: "run_epoch N tr va cfg epoch s = Inr s'"
  shows "ckpt_inv file (h @ [(v, params (model s'))]) s'"
    and "v < 2 ^ 64 \<and> (\<forall>u \<in> fst ` set h. v < u) \<Longrightarrow>
          checkpoint s' = Some (params (model s')) \<and> best_loss s' = v \<and> early_stop_count s' = 0"
    and "\<not> (v < 2 ^ 64 \<and> (\<forall>u \<in> fst ` set h. v < u)) \<Longrightarrow>
          checkpoint s' = checkpoint s \<and> best_loss s' = best_loss s
          \<and> early_stop_count s' = early_stop_count s + 1"
proof -
  from re obtain s1 u where
    ev': "epoch_valid_loss N tr va epoch s = Inr u" and s': "s' = track_best cfg epoch u s1"
    and k: "best_loss s1 = best_loss s" "early_stop_count s1 = early_stop_count s"
      "checkpoint s1 = checkpoint s" "pbar s1 = pbar s" "stdout s1 = stdout s"
    and vl: "valid_log s1 = valid_log s"
    by (rule run_epoch_Inr)
  from ev ev' have u: "u = v" by simp
  have log: "valid_log s' = map fst (h @ [(v, params (model s'))])"
    using inv vl
    by (simp add: s' u valid_log_track_best ckpt_inv_def)
  have best: "best_loss s = Min (insert (2 ^ 64) (fst ` set h))"
    and ck: "checkpoint s = best_checkpoint file h"
    using inv by (simp_all add: ckpt_inv_def)
  have iff: "v < best_loss s \<longleftrightarrow> v < 2 ^ 64 \<and> (\<forall>u \<in> fst ` set h. v < u)"
    unfolding best by (rule best_less_iff)
  have imp: "checkpoint s' = Some (params (model s')) \<and> best_loss s' = v \<and> early_stop_count s' = 0
      \<and> ckpt_inv file (h @ [(v, params (model s'))]) s'"
    if c: "v < 2 ^ 64 \<and> (\<forall>u \<in> fst ` set h. v < u)"
  proof -
    have lt: "v < best_loss s" using c iff by simp
    note f = run_epoch_improved [OF ev lt re]
    have "Min (insert (2 ^ 64) (fst ` set (h @ [(v, params (model s'))]))) = min v (best_loss s)"
      unfolding best by (rule Min_snoc)
    then have "Min (insert (2 ^ 64) (fst ` set (h @ [(v, params (model s'))]))) = v"
      using lt by (simp add: min_def)
    moreover have "best_checkpoint file (h @ [(v, params (model s'))]) = Some (params (model s'))"
      using c by (intro best_checkpoint_improved) simp_all
    ultimately show ?thesis using f log unfolding ckpt_inv_def by simp
  qed
  have stl: "checkpoint s' = checkpoint s \<and> best_loss s' = best_loss s
      \<and> early_stop_count s' = early_stop_count s + 1
      \<and> ckpt_inv file (h @ [(v, params (model s'))]) s'"
    if c: "\<not> (v < 2 ^ 64 \<and> (\<forall>u \<in> fst ` set h. v < u))"
  proof -
    have nlt: "\<not> v < best_loss s" using c iff by simp
    note f = run_epoch_stalled [OF ev nlt re]
    have "Min (insert (2 ^ 64) (fst ` set (h @ [(v, params (model s'))]))) = min v (best_loss s)"
      unfolding best by (rule Min_snoc)
    then have "Min (insert (2 ^ 64) (fst ` set (h @ [(v, params (model s'))]))) = best_loss s"
      using nlt by (simp add: min_def)
    moreover have "best_checkpoint file (h @ [(v, params (model s'))]) = checkpoint s"
      unfolding ck using c by (rule best_checkpoint_stalled)
    ultimately show ?thesis using f log unfolding ckpt_inv_def by simp
  qed
  show "ckpt_inv file (h @ [(v, params (model s'))]) s'" using imp stl by blast
  show "v < 2 ^ 64 \<and> (\<forall>u \<in> fst ` set h. v < u) \<Longrightarrow>
          checkpoint s' = Some (params (model s')) \<and> best_loss s' = v \<and> early_stop_count s' = 0"
    using imp by blast
  show "\<not> (v < 2 ^ 64 \<and> (\<forall>u \<in> fst ` set h. v < u)) \<Longrightarrow>
          checkpoint s' = checkpoint s \<and> best_loss s' = best_loss s
          \<and> early_stop_count s' = early_stop_count s + 1"
    using stl by blast
qed

lemma ckpt_inv_halt: "ckpt_inv file h s \<Longrightarrow> ckpt_inv file h (halt s)"
  by (simp add: ckpt_inv_def halt_fields)

lemma run_epoch_valid_loss:
  "run_epoch N tr va cfg epoch s = Inr s' \<Longrightarrow> \<exists>v. epoch_valid_loss N tr va epoch s = Inr v"
  by (erule run_epoch_Inr) blast

lemma trainer_loop_inv:
  assumes "ckpt_inv file h s" and "trainer_loop N tr va cfg epoch s = Inr t"
  shows "\<exists>h'. ckpt_inv file (h @ h') t"
  using assms
proof (induction "nat (n_epochs cfg) - epoch" arbitrary: epoch s h)
  case 0
  then have "\<not> int epoch < n_epochs cfg" by linarith
  then have "t = s" using "0.prems"(2) by (simp add: trainer_loop_exhausted)
  then show ?case using "0.prems"(1) by (intro exI [of _ "[]"]) simp
next
  case (Suc k)
  then have lt: "int epoch < n_epochs cfg" by linarith
  show ?case
  proof (cases "run_epoch N tr va cfg epoch s")
    case (Inl e)
    then show ?thesis using trainer_loop_error [OF lt Inl] Suc.prems(2) by simp
  next
    case (Inr s1)
    then obtain v where ev: "epoch_valid_loss N tr va epoch s = Inr v"
      using run_epoch_valid_loss by blast
    note inv1 = ckpt_inv_step(1) [OF Suc.prems(1) ev Inr]
    show ?thesis
    proof (cases "early_stop cfg \<le> int (early_stop_count s1)")
      case True
      then have "t = halt s1" using trainer_loop_halt [OF lt Inr] Suc.prems(2) by simp
      then show ?thesis using ckpt_inv_halt [OF inv1] by blast
    next
      case False
      then have "trainer_loop N tr va cfg (Suc epoch) s1 = Inr t"
        using trainer_loop_continue [OF lt Inr] Suc.prems(2) by simp
      moreover have "k = nat (n_epochs cfg) - Suc epoch" using Suc(2) by linarith
      ultimately obtain h' where "ckpt_inv file ((h @ [(v, params (model s1))]) @ h') t"
        using Suc(1) [of "Suc epoch" "h @ [(v, params (model s1))]" s1] inv1 by blast
      then show ?thesis by (intro exI [of _ "(v, params (model s1)) # h'"]) simp
    qed
  qed
qed


lemma item_labels_at:
  assumes "y d = Some ys"
  shows "item_labels (map (item_at d) ks) = map ((!) ys) ks"
  using assms by (induction ks) (simp_all add: item_labels_def item_at_def)

lemma item_rows_at: "map item_row (map (item_at d) ks) = map ((!) (x d)) ks"
  by (induction ks) (simp_all add: item_row_def item_at_def split: option.splits)

lemma xy_pass_content:
  assumes "aligned (dataset l)" and "y (dataset l) = Some ys"
    and "set (sampler_order l drawn) \<subseteq> {0..<len (dataset l)}"
    and "0 < batch_size l" and "shuffle l \<longrightarrow> 0 < len (dataset l)"
  shows "\<exists>bs. xy_pass l drawn = Inr bs
           \<and> concat (map fst bs) = map ((!) (x (dataset l))) (sampler_order l drawn)
           \<and> concat (map snd bs) = map ((!) ys) (sampler_order l drawn)"
proof -
  let ?d = "dataset l"
  let ?B = "batch_sampler (batch_size l) [] (sampler_order l drawn)"
  have it: "DataLoader_iter l drawn = Inr (map (map (item_at ?d)) ?B)"
    using assms(1,3,4,5) by (rule DataLoader_iter_in_range)
  then have xp: "xy_pass l drawn = Inr (map collate_xy (map (map (item_at ?d)) ?B))"
    by (simp add: xy_pass_def)
  have f1: "fst (collate_xy (map (item_at ?d) b)) = map ((!) (x ?d)) b" for b
    using item_rows_at [of ?d b] by (simp add: collate_xy_def del: map_map)
  have s1: "snd (collate_xy (map (item_at ?d) b)) = map ((!) ys) b" for b
    using item_labels_at [OF assms(2), of b] by (simp add: collate_xy_def)
  have f: "map fst (map collate_xy (map (map (item_at ?d)) ?B)) = map (map ((!) (x ?d))) ?B"
    by (simp add: f1 comp_def)
  have s: "map snd (map collate_xy (map (map (item_at ?d)) ?B)) = map (map ((!) ys)) ?B"
    by (simp add: s1 comp_def)
  have c: "concat ?B = sampler_order l drawn"
    by (simp add: batch_sampler_concat)
  have g: "concat (map (map g) ?B) = map g (sampler_order l drawn)" for g :: "nat \<Rightarrow> 'z"
    using c by (simp add: map_concat [symmetric])
  show ?thesis
  proof (intro exI conjI)
    show "xy_pass l drawn = Inr (map collate_xy (map (map (item_at ?d)) ?B))" by (rule xp)
    show "concat (map fst (map collate_xy (map (map (item_at ?d)) ?B))) =
        map ((!) (x ?d)) (sampler_order l drawn)"
      unfolding f by (rule g)
    show "concat (map snd (map collate_xy (map (map (item_at ?d)) ?B))) =
        map ((!) ys) (sampler_order l drawn)"
      unfolding s by (rule g)
  qed
qed


text \<open>
  What an epoch computes: the parameters and the optimizer state after the training pass
  are those of one optimizer step per training batch, in order; each logged training
  loss is taken under the parameters before the step of its batch; the validation loss
  is the mean over the validation batches under the parameters the training pass ended
  with.
\<close>

lemma train_batches_fold:
  "(params (model (fst (train_batches N bs s rec))), optimizer (fst (train_batches N bs s rec))) =
     foldl (\<lambda>(p, opt) (xs, ys). update N p opt xs ys) (params (model s), optimizer s) bs"
proof (induction bs arbitrary: s rec)
  case Nil
  show ?case by simp
next
  case (Cons b bs)
  show ?case
    by (simp add: Let_def case_prod_beta Cons.IH)
qed

lemma train_batches_losses:
  "snd (train_batches N bs s rec) =
     rec @ map (\<lambda>i. MSELoss
                 (forward N
                    (fst (foldl (\<lambda>(p, opt) (xs, ys). update N p opt xs ys)
                            (params (model s), optimizer s) (take i bs)))
                    (fst (bs ! i)))
                 (snd (bs ! i))) [0..<length bs]"
proof (induction bs arbitrary: s rec)
  case Nil
  show ?case by simp
next
  case (Cons b bs)
  show ?case
    by (simp add: Let_def case_prod_beta Cons.IH map_upt_Suc del: upt_Suc)
qed


lemma run_epoch_computes:
  fixes N :: "('p, 'o) net"
  defines "grad \<equiv> (\<lambda>(p, opt) (xs, ys). update N p opt xs ys)"
  assumes "tr epoch = Inr tb" and "tb \<noteq> []" and "va epoch = Inr vb" and "vb \<noteq> []"
  shows "\<exists>s'. run_epoch N tr va cfg epoch s = Inr s'
           \<and> (params (model s'), optimizer s') = foldl grad (params (model s), optimizer s) tb
           \<and> step s' = step s + length tb
           \<and> epoch_valid_loss N tr va epoch s =
               Inr (sum_list (map (\<lambda>(xs, ys). MSELoss (forward N (params (model s')) xs) ys) vb)
                      / real (length vb))
           \<and> writer s' = writer s @
               [(''Loss/train'',
                 sum_list (map (\<lambda>i. MSELoss
                     (forward N (fst (foldl grad (params (model s), optimizer s) (take i tb)))
                        (fst (tb ! i)))
                     (snd (tb ! i))) [0..<length tb]) / real (length tb),
                 step s + length tb),
                (''Loss/valid'',
                 sum_list (map (\<lambda>(xs, ys). MSELoss (forward N (params (model s')) xs) ys) vb)
                   / real (length vb),
                 step s + length tb)]"
proof -
  let ?s0 = "s\<lparr>model := (model s)\<lparr>training := True\<rparr>\<rparr>"
  let ?tb = "train_batches N tb ?s0 []"
  let ?s2 = "fst ?tb"
  let ?TL = "map (\<lambda>i. MSELoss
                     (forward N (fst (foldl grad (params (model s), optimizer s) (take i tb)))
                        (fst (tb ! i)))
                     (snd (tb ! i))) [0..<length tb]"
  have fold: "(params (model ?s2), optimizer ?s2) = foldl grad (params (model s), optimizer s) tb"
    using train_batches_fold [of N tb ?s0 "[]"] by (simp add: grad_def)
  have losses: "snd ?tb = ?TL"
    using train_batches_losses [of N tb ?s0 "[]"] by (simp add: grad_def)
  note k = train_batches_keeps [of N tb ?s0 "[]"]
  have ne: "?TL \<noteq> []" using assms(3) by simp
  let ?mt = "sum_list ?TL / real (length tb)"
  let ?s1 = "?s2\<lparr>writer := writer ?s2 @ [(''Loss/train'', ?mt, step ?s2)]\<rparr>"
  have tp: "train_phase N (tr epoch) s = Inr ?s1"
    using assms(3) by (simp add: train_phase_def assms(2) case_prod_beta losses mean_loss_def)
  let ?sv = "?s1\<lparr>model := (model ?s1)\<lparr>training := False\<rparr>\<rparr>"
  let ?VL = "map (\<lambda>(xs, ys). MSELoss (forward N (params (model ?s2)) xs) ys) vb"
  let ?v = "sum_list ?VL / real (length vb)"
  have vp: "valid_phase N (va epoch) (params (model ?s2)) = Inr ?v"
    using assms(5) by (simp add: valid_phase_def assms(4) mean_loss_def case_prod_unfold)
  have re: "run_epoch N tr va cfg epoch s = Inr (track_best cfg epoch ?v ?sv)"
    using tp vp by (simp add: run_epoch_def Let_def)
  have ev: "epoch_valid_loss N tr va epoch s = Inr ?v"
    using tp vp by (simp add: epoch_valid_loss_def)
  let ?s' = "track_best cfg epoch ?v ?sv"
  have ps: "params (model ?s') = params (model ?s2)" "optimizer ?s' = optimizer ?s2"
    "step ?s' = step ?s2"
    "writer ?s' = writer ?s2 @ [(''Loss/train'', ?mt, step ?s2), (''Loss/valid'', ?v, step ?s2)]"
    by (simp_all add: track_best_def Let_def)
  have st: "step ?s2 = step s + length tb" "writer ?s2 = writer s" using k by simp_all
  show ?thesis
  proof (intro exI conjI)
    show "run_epoch N tr va cfg epoch s = Inr ?s'" by (rule re)
    show "(params (model ?s'), optimizer ?s') = foldl grad (params (model s), optimizer s) tb"
      unfolding ps(1,2) by (rule fold)
    show "step ?s' = step s + length tb"
      unfolding ps(3) by (rule st(1))
    show "epoch_valid_loss N tr va epoch s =
        Inr (sum_list (map (\<lambda>(xs, ys). MSELoss (forward N (params (model ?s')) xs) ys) vb)
               / real (length vb))"
      unfolding ps(1) by (rule ev)
    show "writer ?s' = writer s @
        [(''Loss/train'', ?mt, step s + length tb),
         (''Loss/valid'',
          sum_list (map (\<lambda>(xs, ys). MSELoss (forward N (params (model ?s')) xs) ys) vb)
            / real (length vb),
          step s + length tb)]"
      unfolding ps(1,4) unfolding st by (rule refl)
  qed
qed


section \<open>The first epoch\<close>

text \<open>
  C3 (as the code has it). The trainer enters the epoch loop at epoch \<open>0\<close> with
  \<open>best_loss = 2 ^ 64\<close> and \<open>early_stop_count = 0\<close>. When the first epoch completes with mean
  validation loss \<open>v\<close>: for \<open>v < 2 ^ 64\<close> the test \<open>v < best_loss\<close> succeeds, the checkpoint
  is written with the current parameters and \<open>best_loss\<close> becomes \<open>v\<close>; for \<open>v \<ge> 2 ^ 64\<close>
  the test fails, the checkpoint file is left as it was and the counter becomes \<open>1\<close>.
\<close>

theorem first_epoch_checkpoint:
  assumes "epoch_valid_loss N tr va 0 (trainer_init N m cfg file) = Inr v"
    and "run_epoch N tr va cfg 0 (trainer_init N m cfg file) = Inr s'"
  shows "trainer N tr va m cfg file = trainer_loop N tr va cfg 0 (trainer_init N m cfg file)
       \<and> best_loss (trainer_init N m cfg file) = 2 ^ 64
       \<and> early_stop_count (trainer_init N m cfg file) = 0
       \<and> (v < 2 ^ 64 \<longrightarrow>
            checkpoint s' = Some (params (model s')) \<and> best_loss s' = v \<and> early_stop_count s' = 0)
       \<and> (2 ^ 64 \<le> v \<longrightarrow>
            checkpoint s' = file \<and> best_loss s' = 2 ^ 64 \<and> early_stop_count s' = 1)"
proof -
  let ?s = "trainer_init N m cfg file"
  from assms(2) obtain s1 u where
    ev: "epoch_valid_loss N tr va 0 ?s = Inr u" and s': "s' = track_best cfg 0 u s1"
    and k: "best_loss s1 = best_loss ?s" "early_stop_count s1 = early_stop_count ?s"
      "checkpoint s1 = checkpoint ?s" "pbar s1 = pbar ?s" "stdout s1 = stdout ?s"
    and vl: "valid_log s1 = valid_log ?s"
    by (rule run_epoch_Inr)
  from ev assms(1) have u: "u = v" by simp
  have b1: "best_loss s1 = 2 ^ 64" using k(1) by (simp add: init_fields)
  have c1: "checkpoint s1 = file" using k(3) by (simp add: init_fields)
  have e1: "early_stop_count s1 = 0" using k(2) by (simp add: init_fields)
  have imp: "v < 2 ^ 64 \<Longrightarrow>
      checkpoint s' = Some (params (model s')) \<and> best_loss s' = v \<and> early_stop_count s' = 0"
    using track_best_improved [of v s1 cfg 0] track_best_keeps(1) [of cfg 0 v s1]
    by (simp add: s' u b1)
  have stl: "2 ^ 64 \<le> v \<Longrightarrow>
      checkpoint s' = file \<and> best_loss s' = 2 ^ 64 \<and> early_stop_count s' = 1"
    using track_best_stalled [of v s1 cfg 0] by (simp add: s' u b1 c1 e1)
  show ?thesis using imp stl by (simp add: trainer_def init_fields)
qed

theorem first_epoch_checkpoint_witness:
  "epoch_valid_loss example_net (\<lambda>k. Inr [([[0]], [3])]) (\<lambda>k. Inr [([[0]], [3])]) 0
     (trainer_init example_net \<lparr>params = 0, training = False\<rparr> (example_config 1 1) None) = Inr 9
   \<and> (\<exists>s'. run_epoch example_net (\<lambda>k. Inr [([[0]], [3])]) (\<lambda>k. Inr [([[0]], [3])])
             (example_config 1 1) 0
             (trainer_init example_net \<lparr>params = 0, training = False\<rparr> (example_config 1 1) None) = Inr s'
          \<and> checkpoint s' = Some (params (model s')) \<and> best_loss s' = 9
          \<and> early_stop_count s' = 0)"
proof -
  let ?L = "\<lambda>k::nat. (Inr [([[0]], [3])] :: xy_batch pass)"
  let ?s = "trainer_init example_net \<lparr>params = 0, training = False\<rparr> (example_config 1 1) None"
  have ev: "epoch_valid_loss example_net ?L ?L 0 ?s = Inr 9"
    by (simp add: epoch_valid_loss_def train_phase_def valid_phase_def mean_loss_def MSELoss_def
        example_net_def example_config_def trainer_init_def Let_def)
  obtain s' where re: "run_epoch example_net ?L ?L (example_config 1 1) 0 ?s = Inr s'"
    using run_epoch_nonempty
      [of ?L 0 "[([[0]], [3])]" ?L "[([[0]], [3])]" example_net "example_config 1 1" ?s]
    by auto
  from first_epoch_checkpoint [OF ev re]
  have "checkpoint s' = Some (params (model s')) \<and> best_loss s' = 9 \<and> early_stop_count s' = 0"
    by simp
  with ev re show ?thesis by blast
qed

text \<open>
  The claim as written fails: the starting value of \<open>best_loss\<close> is the finite number
  \<open>2 ^ 64\<close>. A first epoch whose mean validation loss is \<open>2 ^ 64\<close> (one validation row
  with target \<open>2 ^ 32\<close> and prediction \<open>0\<close>) does not pass the test, and no checkpoint is
  written.
\<close>

theorem first_epoch_checkpoint_counterexample:
  "best_loss (trainer_init example_net \<lparr>params = 0, training = False\<rparr> (example_config 1 1) None) = 2 ^ 64
   \<and> epoch_valid_loss example_net (\<lambda>k. Inr [([[0]], [4294967296])]) (\<lambda>k. Inr [([[0]], [4294967296])]) 0
       (trainer_init example_net \<lparr>params = 0, training = False\<rparr> (example_config 1 1) None) = Inr (2 ^ 64)
   \<and> (\<exists>s'. run_epoch example_net (\<lambda>k. Inr [([[0]], [4294967296])]) (\<lambda>k. Inr [([[0]], [4294967296])])
             (example_config 1 1) 0
             (trainer_init example_net \<lparr>params = 0, training = False\<rparr> (example_config 1 1) None) = Inr s'
          \<and> checkpoint s' = None \<and> early_stop_count s' = 1)"
  by (simp add: run_epoch_def epoch_valid_loss_def train_phase_def valid_phase_def mean_loss_def
      MSELoss_def track_best_def example_net_def example_config_def trainer_init_def Let_def)

section \<open>Division by the number of batches\<close>

text \<open>
  C9. The mean of a loss record fails exactly when the record is empty. When every pass the
  trainer makes over its two loaders yields at least one batch, the trainer returns
  without any error; a pass of a loader over a data set that is not empty yields at least
  one batch, and a pass of a loader in sequential order over an empty data set yields
  none. When the loop is at an epoch within the budget and the training loader yields
  no batch, or the training loader yields batches and the validation loader yields none,
  the trainer fails with ZeroDivisionError; so it does at its first epoch.
\<close>

theorem mean_loss_division_by_zero:
  shows "((\<exists>e. mean_loss loss_record = Inl e) \<longleftrightarrow> loss_record = [])
       \<and> ((\<forall>e. int e < n_epochs cfg \<longrightarrow>
              (\<exists>bs. tr e = Inr bs \<and> bs \<noteq> []) \<and> (\<exists>cs. va e = Inr cs \<and> cs \<noteq> []))
            \<longrightarrow> (\<exists>s'. trainer N tr va m cfg file = Inr s'))
       \<and> (0 < len (dataset l) \<and> aligned (dataset l) \<and> 0 < batch_size l
              \<and> (shuffle l \<longrightarrow> set drawn = {0..<len (dataset l)})
            \<longrightarrow> (\<exists>bs. xy_pass l drawn = Inr bs \<and> bs \<noteq> []))
       \<and> (len (dataset l) = 0 \<and> 0 < batch_size l \<and> \<not> shuffle l \<longrightarrow> xy_pass l drawn = Inr [])
       \<and> (int epoch < n_epochs cfg \<and> tr epoch = Inr []
            \<longrightarrow> trainer_loop N tr va cfg epoch s = Inl ZeroDivisionError)
       \<and> (int epoch < n_epochs cfg \<and> (\<exists>bs. tr epoch = Inr bs) \<and> va epoch = Inr []
            \<longrightarrow> trainer_loop N tr va cfg epoch s = Inl ZeroDivisionError)
       \<and> (0 < n_epochs cfg \<and> (tr 0 = Inr [] \<or> (\<exists>bs. tr 0 = Inr bs) \<and> va 0 = Inr [])
            \<longrightarrow> trainer N tr va m cfg file = Inl ZeroDivisionError)"
proof -
  have a: "(\<exists>e. mean_loss loss_record = Inl e) \<longleftrightarrow> loss_record = []"
    by (auto simp add: mean_loss_def)
  have b: "\<exists>s'. trainer N tr va m cfg file = Inr s'"
    if "\<forall>e. int e < n_epochs cfg \<longrightarrow>
          (\<exists>bs. tr e = Inr bs \<and> bs \<noteq> []) \<and> (\<exists>cs. va e = Inr cs \<and> cs \<noteq> [])"
    unfolding trainer_def using that by (intro trainer_loop_returns) blast
  have c: "\<exists>bs. xy_pass l drawn = Inr bs \<and> bs \<noteq> []"
    if "0 < len (dataset l) \<and> aligned (dataset l) \<and> 0 < batch_size l
          \<and> (shuffle l \<longrightarrow> set drawn = {0..<len (dataset l)})"
    using that xy_pass_nonempty [of l drawn] by blast
  have c': "xy_pass l drawn = Inr []"
    if "len (dataset l) = 0 \<and> 0 < batch_size l \<and> \<not> shuffle l"
    using that xy_pass_empty [of l drawn] by blast
  have d: "trainer_loop N tr va cfg k t = Inl ZeroDivisionError"
    if "int k < n_epochs cfg" and "tr k = Inr []" for k t
    using that by (simp add: trainer_loop_error run_epoch_empty_train)
  have e: "trainer_loop N tr va cfg k t = Inl ZeroDivisionError"
    if "int k < n_epochs cfg" and "\<exists>bs. tr k = Inr bs" and "va k = Inr []" for k t
    using that by (auto simp add: trainer_loop_error run_epoch_empty_valid)
  have f: "trainer N tr va m cfg file = Inl ZeroDivisionError"
    if "0 < n_epochs cfg \<and> (tr 0 = Inr [] \<or> (\<exists>bs. tr 0 = Inr bs) \<and> va 0 = Inr [])"
    unfolding trainer_def using that d [of 0] e [of 0] by auto
  show ?thesis using a b c c' d [of epoch s] e [of epoch s] f by blast
qed

theorem mean_loss_division_by_zero_witness:
  "(\<exists>s'. trainer example_net (\<lambda>k. Inr [([[0]], [3])]) (\<lambda>k. Inr [([[0]], [3])])
           \<lparr>params = 0, training = False\<rparr> (example_config 2 1) None = Inr s')
   \<and> trainer example_net (\<lambda>k. Inr []) (\<lambda>k. Inr [([[0]], [3])])
        \<lparr>params = 0, training = False\<rparr> (example_config 2 1) None = Inl ZeroDivisionError
   \<and> trainer example_net (\<lambda>k. Inr [([[0]], [3])]) (\<lambda>k. Inr [])
        \<lparr>params = 0, training = False\<rparr> (example_config 2 1) None = Inl ZeroDivisionError
   \<and> (\<exists>bs. xy_pass \<lparr>dataset = \<lparr>x = [[1], [2], [3]], y = Some [1, 2, 3]\<rparr>, batch_size = 2,
                    shuffle = False\<rparr> [] = Inr bs \<and> bs \<noteq> [])"
proof -
  let ?L = "\<lambda>k::nat. (Inr [([[0]], [3])] :: xy_batch pass)"
  let ?E = "\<lambda>k::nat. (Inr [] :: xy_batch pass)"
  let ?m = "\<lparr>params = 0::real, training = False\<rparr>"
  let ?l = "\<lparr>dataset = \<lparr>x = [[1], [2], [3]], y = Some [1, 2, 3]\<rparr>, batch_size = 2, shuffle = False\<rparr>"
  have n: "n_epochs (example_config 2 1) = 2" by (simp add: example_config_def)
  have "\<exists>s'. trainer example_net ?L ?L ?m (example_config 2 1) None = Inr s'"
    using mean_loss_division_by_zero [of "[]" "example_config 2 1" ?L ?L example_net ?m None ?l "[]" 0
        "trainer_init example_net ?m (example_config 2 1) None"]
    by simp
  moreover have "trainer example_net ?E ?L ?m (example_config 2 1) None = Inl ZeroDivisionError"
    using mean_loss_division_by_zero [of "[]" "example_config 2 1" ?E ?L example_net ?m None ?l "[]" 0
        "trainer_init example_net ?m (example_config 2 1) None"]
    by (simp add: n)
  moreover have "trainer example_net ?L ?E ?m (example_config 2 1) None = Inl ZeroDivisionError"
    using mean_loss_division_by_zero [of "[]" "example_config 2 1" ?L ?E example_net ?m None ?l "[]" 0
        "trainer_init example_net ?m (example_config 2 1) None"]
    by (simp add: n)
  moreover have "\<exists>bs. xy_pass ?l [] = Inr bs \<and> bs \<noteq> []"
    using mean_loss_division_by_zero
      [of "[]" "example_config 2 1" ?L ?L example_net ?m None ?l "[]" 0
        "trainer_init example_net ?m (example_config 2 1) None"]
    by (simp add: len_def aligned_def)
  ultimately show ?thesis by blast
qed

section \<open>Patience zero\<close>

text \<open>
  C10. With \<open>early_stop\<close> configured as \<open>0\<close> and an epoch budget of at least one, the run of
  the trainer is its first epoch and nothing more: if the first epoch fails the trainer
  fails with it, and if it completes the trainer returns at once, at epoch \<open>1\<close> of the
  budget, with one validation loss logged, whether the epoch improved (counter \<open>0\<close>,
  checkpoint written) or not (counter \<open>1\<close>, checkpoint file untouched). The first epoch
  completes whenever both loaders yield at least one batch.
\<close>

theorem zero_patience_one_epoch:
  assumes "early_stop cfg = 0" and "0 < n_epochs cfg"
  shows "trainer N tr va m cfg file =
           (case run_epoch N tr va cfg 0 (trainer_init N m cfg file) of
              Inl e \<Rightarrow> Inl e
            | Inr s' \<Rightarrow> Inr (halt s'))
       \<and> (\<forall>s'. run_epoch N tr va cfg 0 (trainer_init N m cfg file) = Inr s' \<longrightarrow>
             pbar (halt s') = Some (1, n_epochs cfg)
           \<and> stdout (halt s') = [''Trining end.'']
           \<and> length (valid_log (halt s')) = 1
           \<and> (early_stop_count s' = 0 \<and> checkpoint s' = Some (params (model s'))
              \<or> early_stop_count s' = 1 \<and> checkpoint s' = file))
       \<and> ((\<exists>bs. tr 0 = Inr bs \<and> bs \<noteq> []) \<and> (\<exists>cs. va 0 = Inr cs \<and> cs \<noteq> []) \<longrightarrow>
             (\<exists>s'. run_epoch N tr va cfg 0 (trainer_init N m cfg file) = Inr s'))"
proof -
  let ?s = "trainer_init N m cfg file"
  have lt: "int 0 < n_epochs cfg" using assms(2) by simp
  have run: "trainer N tr va m cfg file =
           (case run_epoch N tr va cfg 0 ?s of Inl e \<Rightarrow> Inl e | Inr s' \<Rightarrow> Inr (halt s'))"
  proof (cases "run_epoch N tr va cfg 0 ?s")
    case (Inl e)
    then show ?thesis using trainer_loop_error [OF lt Inl] by (simp add: trainer_def)
  next
    case (Inr s')
    have "early_stop cfg \<le> int (early_stop_count s')" using assms(1) by simp
    then show ?thesis using trainer_loop_halt [OF lt Inr] Inr by (simp add: trainer_def)
  qed
  have after: "pbar (halt s') = Some (1, n_epochs cfg)
           \<and> stdout (halt s') = [''Trining end.'']
           \<and> length (valid_log (halt s')) = 1
           \<and> (early_stop_count s' = 0 \<and> checkpoint s' = Some (params (model s'))
              \<or> early_stop_count s' = 1 \<and> checkpoint s' = file)"
    if r: "run_epoch N tr va cfg 0 ?s = Inr s'" for s'
  proof -
    from r obtain s1 v where s': "s' = track_best cfg 0 v s1"
      and k: "best_loss s1 = best_loss ?s" "early_stop_count s1 = early_stop_count ?s"
        "checkpoint s1 = checkpoint ?s" "pbar s1 = pbar ?s" "stdout s1 = stdout ?s"
      and vl: "valid_log s1 = valid_log ?s"
      by (rule run_epoch_Inr)
    have w: "valid_log s1 = []"
      using vl by (simp add: valid_log_def init_fields)
    have c: "early_stop_count s' = 0 \<and> checkpoint s' = Some (params (model s'))
              \<or> early_stop_count s' = 1 \<and> checkpoint s' = file"
    proof (cases "v < best_loss s1")
      case True
      then show ?thesis
        using track_best_improved [OF True, of cfg 0] track_best_keeps(1) [of cfg 0 v s1]
        by (simp add: s')
    next
      case False
      then show ?thesis
        using track_best_stalled [OF False, of cfg 0] k(2,3) by (simp add: s' init_fields)
    qed
    show ?thesis
      using c k(5) w track_best_keeps(2,3) [of cfg 0 v s1]
      by (simp add: halt_fields s' valid_log_track_best init_fields)
  qed
  have ex: "\<exists>s'. run_epoch N tr va cfg 0 ?s = Inr s'"
    if "(\<exists>bs. tr 0 = Inr bs \<and> bs \<noteq> []) \<and> (\<exists>cs. va 0 = Inr cs \<and> cs \<noteq> [])"
    using that run_epoch_nonempty [of tr 0 _ va _ N cfg ?s] by blast
  show ?thesis using run after ex by blast
qed

theorem zero_patience_one_epoch_witness:
  "early_stop (example_config 3 0) = 0 \<and> 0 < n_epochs (example_config 3 0)
   \<and> (\<exists>s'. run_epoch example_net (\<lambda>k. Inr [([[0]], [3])]) (\<lambda>k. Inr [([[0]], [3])])
             (example_config 3 0) 0
             (trainer_init example_net \<lparr>params = 0, training = False\<rparr> (example_config 3 0) None) = Inr s'
          \<and> trainer example_net (\<lambda>k. Inr [([[0]], [3])]) (\<lambda>k. Inr [([[0]], [3])])
               \<lparr>params = 0, training = False\<rparr> (example_config 3 0) None = Inr (halt s')
          \<and> pbar (halt s') = Some (1, 3)
          \<and> stdout (halt s') = [''Trining end.'']
          \<and> length (valid_log (halt s')) = 1)"
proof -
  let ?L = "\<lambda>k::nat. (Inr [([[0]], [3])] :: xy_batch pass)"
  let ?m = "\<lparr>params = 0::real, training = False\<rparr>"
  let ?cfg = "example_config 3 0"
  have h: "early_stop ?cfg = 0" "0 < n_epochs ?cfg" "n_epochs ?cfg = 3"
    by (simp_all add: example_config_def)
  note t = zero_patience_one_epoch [OF h(1,2), of example_net ?L ?L ?m None]
  from t obtain s' where
    r: "run_epoch example_net ?L ?L ?cfg 0 (trainer_init example_net ?m ?cfg None) = Inr s'"
    by auto
  from t r have "trainer example_net ?L ?L ?m ?cfg None = Inr (halt s')"
    by simp
  moreover from t r have "pbar (halt s') = Some (1, 3) \<and> stdout (halt s') = [''Trining end.'']
      \<and> length (valid_log (halt s')) = 1"
    using h(3) by simp
  ultimately show ?thesis using h(1,2) r by blast
qed

section \<open>Early stopping\<close>

text \<open>
  C6. Let the patience be \<open>P \<ge> 1\<close>. The trainer returns at the end of any epoch within the
  budget after which \<open>early_stop_count \<ge> P\<close>. And when the loop is at some epoch with
  \<open>early_stop_count < P\<close>, and the next \<open>P - early_stop_count\<close> epochs, all within the
  budget, each complete without improving on the best validation loss (so that the last of
  them is the \<open>P\<close>-th consecutive epoch without improvement), the trainer returns at the end
  of the last of them: its final state is the state after exactly these epochs, with
  \<open>early_stop_count = P\<close>, the progress bar at that epoch, and the closing line printed;
  no later epoch of the budget is run.
\<close>

theorem early_stop_after_patience:
  assumes "1 \<le> P" and "early_stop cfg = int P"
  shows "(int epoch < n_epochs cfg \<and> run_epoch N tr va cfg epoch s = Inr s1
            \<and> P \<le> early_stop_count s1
          \<longrightarrow> trainer_loop N tr va cfg epoch s = Inr (halt s1))
       \<and> (early_stop_count s < P
            \<and> stalled N tr va cfg (P - early_stop_count s) epoch s
            \<and> int (epoch + (P - early_stop_count s)) \<le> n_epochs cfg
          \<longrightarrow> (\<exists>s'. after_epochs N tr va cfg (P - early_stop_count s) epoch s = Inr s'
                 \<and> trainer_loop N tr va cfg epoch s = Inr (halt s')
                 \<and> early_stop_count s' = P
                 \<and> pbar s' = Some (epoch + (P - early_stop_count s), n_epochs cfg)
                 \<and> stdout (halt s') = stdout s' @ [''Trining end.'']))"
proof -
  have a: "trainer_loop N tr va cfg epoch s = Inr (halt s1)"
    if "int epoch < n_epochs cfg" and "run_epoch N tr va cfg epoch s = Inr s1"
      and "P \<le> early_stop_count s1"
    using that assms(2) by (intro trainer_loop_halt) simp_all
  have b: "\<exists>s'. after_epochs N tr va cfg (P - early_stop_count s) epoch s = Inr s'
                 \<and> trainer_loop N tr va cfg epoch s = Inr (halt s')
                 \<and> early_stop_count s' = P
                 \<and> pbar s' = Some (epoch + (P - early_stop_count s), n_epochs cfg)
                 \<and> stdout (halt s') = stdout s' @ [''Trining end.'']"
    if "early_stop_count s < P" and "stalled N tr va cfg (P - early_stop_count s) epoch s"
      and "int (epoch + (P - early_stop_count s)) \<le> n_epochs cfg"
  proof -
    let ?k = "P - early_stop_count s"
    have "1 \<le> ?k" and "early_stop cfg = int (early_stop_count s + ?k)"
      using that(1) assms(2) by simp_all
    from stalled_run [OF this that(2,3)] that(1) show ?thesis
      by (auto simp add: halt_fields)
  qed
  show ?thesis using a b by blast
qed


theorem early_stop_after_patience_witness:
  "(1::nat) \<le> 2 \<and> early_stop (example_config 5 2) = int 2
   \<and> (\<exists>s1. run_epoch example_net example_train_loader example_valid_loader (example_config 5 2) 0
              (trainer_init example_net \<lparr>params = 0, training = False\<rparr> (example_config 5 2) None) = Inr s1
         \<and> early_stop_count s1 < 2
         \<and> stalled example_net example_train_loader example_valid_loader (example_config 5 2)
              (2 - early_stop_count s1) 1 s1
         \<and> int (1 + (2 - early_stop_count s1)) \<le> n_epochs (example_config 5 2)
         \<and> (\<exists>s'. after_epochs example_net example_train_loader example_valid_loader
                    (example_config 5 2) 2 1 s1 = Inr s'
                \<and> trainer_loop example_net example_train_loader example_valid_loader
                    (example_config 5 2) 1 s1 = Inr (halt s')
                \<and> early_stop_count s' = 2
                \<and> pbar s' = Some (3, 5)))"
proof -
  let ?cfg = "example_config 5 2"
  let ?s1 = "\<lparr>model = \<lparr>params = 0::real, training = False\<rparr>, optimizer = 0::real,
     best_loss = 1, step = 1, early_stop_count = 0,
     writer = [(''Loss/train'', 9, 1), (''Loss/valid'', 1, 1)],
     checkpoint = Some 0, pbar = Some (1, 5), stdout = []\<rparr>"
  have p: "(1::nat) \<le> 2" "early_stop ?cfg = int 2" "n_epochs ?cfg = 5"
    by (simp_all add: example_config_def)
  have r: "run_epoch example_net example_train_loader example_valid_loader ?cfg 0
      (trainer_init example_net \<lparr>params = 0, training = False\<rparr> ?cfg None) = Inr ?s1"
    by (simp add: run_epoch_def train_phase_def valid_phase_def mean_loss_def MSELoss_def
        track_best_def example_net_def example_config_def trainer_init_def Let_def
        example_train_loader_def example_valid_loader_def)
  have c: "early_stop_count ?s1 = 0" by simp
  have st: "stalled example_net example_train_loader example_valid_loader ?cfg 2 1 ?s1"
    by (simp add: numeral_2_eq_2 run_epoch_def epoch_valid_loss_def train_phase_def
        valid_phase_def mean_loss_def MSELoss_def track_best_def example_net_def
        example_config_def Let_def example_train_loader_def example_valid_loader_def)
  from early_stop_after_patience [OF p(1,2), of 1 example_net example_train_loader
      example_valid_loader ?s1 ?s1]
  have inner: "\<exists>s'. after_epochs example_net example_train_loader example_valid_loader ?cfg 2 1 ?s1 = Inr s'
           \<and> trainer_loop example_net example_train_loader example_valid_loader ?cfg 1 ?s1 = Inr (halt s')
           \<and> early_stop_count s' = 2 \<and> pbar s' = Some (3, 5)"
    using st p(3) by (auto simp add: numeral_3_eq_3)
  have "run_epoch example_net example_train_loader example_valid_loader ?cfg 0
          (trainer_init example_net \<lparr>params = 0, training = False\<rparr> ?cfg None) = Inr ?s1
       \<and> early_stop_count ?s1 < 2
       \<and> stalled example_net example_train_loader example_valid_loader ?cfg
            (2 - early_stop_count ?s1) 1 ?s1
       \<and> int (1 + (2 - early_stop_count ?s1)) \<le> n_epochs ?cfg
       \<and> (\<exists>s'. after_epochs example_net example_train_loader example_valid_loader ?cfg 2 1 ?s1 = Inr s'
            \<and> trainer_loop example_net example_train_loader example_valid_loader ?cfg 1 ?s1 = Inr (halt s')
            \<and> early_stop_count s' = 2 \<and> pbar s' = Some (3, 5))"
    using r st inner by (simp add: p(3))
  then show ?thesis using p(1,2) by blast
qed

section \<open>Checkpointing\<close>

text \<open>
  C7 (as the code has it). \<open>ckpt_inv\<close> is an invariant of the epoch loop: it holds when the
  trainer starts, every completed epoch preserves it, and it holds of the state the
  trainer returns. In an epoch that ends with mean validation loss \<open>v\<close>, the checkpoint is
  written, with the parameters at the end of that epoch, exactly when \<open>v\<close> is strictly
  less than the loss of every earlier epoch and than the initial best \<open>2 ^ 64\<close>; then
  \<open>best_loss\<close> becomes \<open>v\<close> and the counter \<open>0\<close>. In every other epoch the checkpoint file and
  \<open>best_loss\<close> are unchanged and the counter grows by one. Hence after every epoch: once
  some epoch's loss was below \<open>2 ^ 64\<close>, the checkpoint holds the parameters of the first
  epoch that reached the least validation loss so far; while none was, the checkpoint
  file is as it was before training.
\<close>

theorem checkpoint_invariant:
  "ckpt_inv file [] (trainer_init N m cfg file)
   \<and> (ckpt_inv file h s \<and> epoch_valid_loss N tr va epoch s = Inr v
        \<and> run_epoch N tr va cfg epoch s = Inr s'
      \<longrightarrow> ckpt_inv file (h @ [(v, params (model s'))]) s'
        \<and> (v < 2 ^ 64 \<and> (\<forall>u \<in> fst ` set h. v < u) \<longrightarrow>
              checkpoint s' = Some (params (model s')) \<and> best_loss s' = v
              \<and> early_stop_count s' = 0)
        \<and> (\<not> (v < 2 ^ 64 \<and> (\<forall>u \<in> fst ` set h. v < u)) \<longrightarrow>
              checkpoint s' = checkpoint s \<and> best_loss s' = best_loss s
              \<and> early_stop_count s' = early_stop_count s + 1))
   \<and> (ckpt_inv file h s \<and> list_ex (\<lambda>(u, p). u < 2 ^ 64) h
      \<longrightarrow> (\<exists>j < length h. checkpoint s = Some (snd (h ! j))
             \<and> fst (h ! j) = Min (fst ` set h)
             \<and> (\<forall>i < j. fst (h ! i) \<noteq> Min (fst ` set h))))
   \<and> (ckpt_inv file h s \<and> \<not> list_ex (\<lambda>(u, p). u < 2 ^ 64) h \<longrightarrow> checkpoint s = file)
   \<and> (trainer N tr va m cfg file = Inr t \<longrightarrow> (\<exists>h. ckpt_inv file h t))"
proof -
  have a: "ckpt_inv file [] (trainer_init N m cfg file)" by (rule ckpt_inv_init)
  have b: "ckpt_inv file (h @ [(v, params (model s'))]) s'
        \<and> (v < 2 ^ 64 \<and> (\<forall>u \<in> fst ` set h. v < u) \<longrightarrow>
              checkpoint s' = Some (params (model s')) \<and> best_loss s' = v
              \<and> early_stop_count s' = 0)
        \<and> (\<not> (v < 2 ^ 64 \<and> (\<forall>u \<in> fst ` set h. v < u)) \<longrightarrow>
              checkpoint s' = checkpoint s \<and> best_loss s' = best_loss s
              \<and> early_stop_count s' = early_stop_count s + 1)"
    if "ckpt_inv file h s" and "epoch_valid_loss N tr va epoch s = Inr v"
      and "run_epoch N tr va cfg epoch s = Inr s'"
    using ckpt_inv_step [OF that] by blast
  have c: "\<exists>j < length h. checkpoint s = Some (snd (h ! j)) \<and> fst (h ! j) = Min (fst ` set h)
             \<and> (\<forall>i < j. fst (h ! i) \<noteq> Min (fst ` set h))"
    if "ckpt_inv file h s" and "list_ex (\<lambda>(u, p). u < 2 ^ 64) h"
    using best_checkpoint_argmin [OF that(2), of "file"] that(1) by (simp add: ckpt_inv_def)
  have d: "checkpoint s = file"
    if "ckpt_inv file h s" and "\<not> list_ex (\<lambda>(u, p). u < 2 ^ 64) h"
    using that by (simp add: ckpt_inv_def best_checkpoint_def)
  have e: "\<exists>h. ckpt_inv file h t" if "trainer N tr va m cfg file = Inr t"
    using trainer_loop_inv [OF a, of N tr va cfg 0 t] that by (simp add: trainer_def)
  show ?thesis using a b c d e by blast
qed

theorem checkpoint_invariant_witness:
  "ckpt_inv None [] (trainer_init example_net \<lparr>params = 0, training = False\<rparr> (example_config 5 2) None)
   \<and> epoch_valid_loss example_net example_train_loader example_valid_loader 0
       (trainer_init example_net \<lparr>params = 0, training = False\<rparr> (example_config 5 2) None) = Inr 1
   \<and> (\<exists>s'. run_epoch example_net example_train_loader example_valid_loader (example_config 5 2) 0
             (trainer_init example_net \<lparr>params = 0, training = False\<rparr> (example_config 5 2) None) = Inr s'
          \<and> ckpt_inv None [(1, params (model s'))] s'
          \<and> checkpoint s' = Some (params (model s')) \<and> best_loss s' = 1
          \<and> early_stop_count s' = 0)"
proof -
  let ?cfg = "example_config 5 2"
  let ?init = "trainer_init example_net \<lparr>params = 0::real, training = False\<rparr> ?cfg None"
  have ev: "epoch_valid_loss example_net example_train_loader example_valid_loader 0 ?init = Inr 1"
    by (simp add: epoch_valid_loss_def train_phase_def valid_phase_def mean_loss_def MSELoss_def
        example_net_def example_config_def trainer_init_def Let_def
        example_train_loader_def example_valid_loader_def)
  obtain s' where re: "run_epoch example_net example_train_loader example_valid_loader ?cfg 0 ?init = Inr s'"
    using run_epoch_nonempty
      [of example_train_loader 0 "[([[0]], [3])]" example_valid_loader "[([[0]], [1])]"
        example_net ?cfg ?init]
    by (auto simp add: example_train_loader_def example_valid_loader_def)
  note t = checkpoint_invariant
    [of None example_net "\<lparr>params = 0, training = False\<rparr>" ?cfg "[]" ?init
      example_train_loader example_valid_loader 0 1 s']
  from t have i: "ckpt_inv None [] ?init" by simp
  from t i ev re have "ckpt_inv None [(1, params (model s'))] s'
      \<and> checkpoint s' = Some (params (model s')) \<and> best_loss s' = 1 \<and> early_stop_count s' = 0"
    by simp
  with i ev re show ?thesis by blast
qed

text \<open>
  The claim as written fails where no epoch's loss is below the initial best: a run of
  one epoch whose mean validation loss is \<open>2 ^ 66\<close> (one validation row with target
  \<open>2 ^ 33\<close> and prediction \<open>0\<close>) logs that loss, the least observed so far, and returns
  with no checkpoint written.
\<close>

theorem checkpoint_invariant_counterexample:
  "\<exists>t. trainer example_net (\<lambda>k. Inr [([[0]], [8589934592])]) (\<lambda>k. Inr [([[0]], [8589934592])])
          \<lparr>params = 0, training = False\<rparr> (example_config 1 1) None = Inr t
      \<and> valid_log t = [2 ^ 66] \<and> checkpoint t = None"
  by (simp add: trainer_def trainer_loop.simps [of _ _ _ _ 0] run_epoch_def train_phase_def
      valid_phase_def mean_loss_def MSELoss_def track_best_def example_net_def example_config_def
      trainer_init_def Let_def halt_def valid_log_def)


section \<open>Prediction\<close>

text \<open>
  C1. \<open>predict\<close> puts the model in inference mode and returns the concatenated batch
  outputs in order, but of the notebook's global \<open>test_loader\<close>, whatever loader it is
  given: called with a loader over the three rows \<open>[5], [6], [7]\<close> (batches
  \<open>[[5], [6]]\<close> and \<open>[[7]]\<close>) while \<open>test_loader\<close> is over the two rows \<open>[1], [2]\<close>, it
  returns the two predictions for the rows of \<open>test_loader\<close>, not one prediction per row
  of the loader it was given.
\<close>

theorem predict_reads_test_loader:
  "predict example_net
     (x_pass \<lparr>dataset = \<lparr>x = [[1], [2]], y = None\<rparr>, batch_size = 2, shuffle = False\<rparr> [])
     (x_pass \<lparr>dataset = \<lparr>x = [[5], [6], [7]], y = None\<rparr>, batch_size = 2, shuffle = False\<rparr> [])
     \<lparr>params = 0, training = True\<rparr>
   = (Inr [1, 2], \<lparr>params = 0, training = False\<rparr>)
   \<and> x_pass \<lparr>dataset = \<lparr>x = [[5], [6], [7]], y = None\<rparr>, batch_size = 2, shuffle = False\<rparr> []
       = Inr [[[5], [6]], [[7]]]"
  by (simp add: predict_def example_net_def x_pass_def DataLoader_iter_def sampler_order_def
      len_def getitem_def tensor_getitem_def collate_x_def item_row_def upt_rec)

section \<open>Which split is trained on\<close>

text \<open>
  C2. The notebook binds \<open>train_dataset\<close> to the validation split \<open>(x_valid, y_valid)\<close> and
  \<open>valid_dataset\<close> to the training split \<open>(x_train, y_train)\<close>, and its run is the trainer's
  epoch loop over the loaders of these data sets, from the trainer's initial state. For
  splits that are not empty, with one label per row and a positive batch size, every
  epoch of the loop does this: the batches of its training pass are, concatenated, the
  rows and labels of the validation split in the order drawn for that pass; the
  parameters and the optimizer state after the epoch are the result of one optimizer
  step on each of these batches in turn, and the logged training loss is their mean loss;
  the mean validation loss of the epoch, which is what is logged and compared with the
  best loss, is taken over the batches of the training split under the parameters so
  obtained; and the loop goes on from the state of that epoch.
\<close>

theorem notebook_trains_on_validation_split:
  fixes N :: "('p, 'o) net" and cfg :: config
    and x_train x_valid :: "row list" and y_train y_valid :: "real list"
    and draws_train draws_valid :: "nat \<Rightarrow> nat list"
  defines "grad \<equiv> (\<lambda>(p, opt) (xs, ys). update N p opt xs ys)"
    and "train_loader \<equiv> (\<lambda>k. xy_pass \<lparr>dataset = \<lparr>x = x_valid, y = Some y_valid\<rparr>,
            batch_size = batch_size_cfg cfg, shuffle = True\<rparr> (draws_train k))"
    and "valid_loader \<equiv> (\<lambda>k. xy_pass \<lparr>dataset = \<lparr>x = x_train, y = Some y_train\<rparr>,
            batch_size = batch_size_cfg cfg, shuffle = True\<rparr> (draws_valid k))"
  assumes lv: "length y_valid = length x_valid" "0 < length x_valid"
    and lt: "length y_train = length x_train" "0 < length x_train"
    and bs: "0 < batch_size_cfg cfg"
    and dt: "set (draws_train k) = {0..<length x_valid}"
    and dv: "set (draws_valid k) = {0..<length x_train}"
  shows "notebook_datasets x_train x_valid x_text y_train y_valid =
           (\<lparr>x = x_valid, y = Some y_valid\<rparr>, \<lparr>x = x_train, y = Some y_train\<rparr>,
            \<lparr>x = x_text, y = None\<rparr>)
       \<and> notebook_training N cfg x_train x_valid x_text y_train y_valid draws_train draws_valid
           m file =
           trainer_loop N train_loader valid_loader cfg 0 (trainer_init N m cfg file)
       \<and> (\<exists>tb vb s'.
             train_loader k = Inr tb
           \<and> concat (map fst tb) = map ((!) x_valid) (draws_train k)
           \<and> concat (map snd tb) = map ((!) y_valid) (draws_train k)
           \<and> valid_loader k = Inr vb
           \<and> concat (map fst vb) = map ((!) x_train) (draws_valid k)
           \<and> concat (map snd vb) = map ((!) y_train) (draws_valid k)
           \<and> run_epoch N train_loader valid_loader cfg k s = Inr s'
           \<and> (params (model s'), optimizer s') = foldl grad (params (model s), optimizer s) tb
           \<and> step s' = step s + length tb
           \<and> epoch_valid_loss N train_loader valid_loader k s =
               Inr (sum_list (map (\<lambda>(xs, ys). MSELoss (forward N (params (model s')) xs) ys) vb)
                      / real (length vb))
           \<and> writer s' = writer s @
               [(''Loss/train'',
                 sum_list (map (\<lambda>i. MSELoss
                     (forward N (fst (foldl grad (params (model s), optimizer s) (take i tb)))
                        (fst (tb ! i)))
                     (snd (tb ! i))) [0..<length tb]) / real (length tb),
                 step s + length tb),
                (''Loss/valid'',
                 sum_list (map (\<lambda>(xs, ys). MSELoss (forward N (params (model s')) xs) ys) vb)
                   / real (length vb),
                 step s + length tb)]
           \<and> (int k < n_epochs cfg \<longrightarrow>
                 trainer_loop N train_loader valid_loader cfg k s =
                   (if early_stop cfg \<le> int (early_stop_count s') then Inr (halt s')
                    else trainer_loop N train_loader valid_loader cfg (Suc k) s')))"
proof -
  let ?TL = "\<lparr>dataset = \<lparr>x = x_valid, y = Some y_valid\<rparr>,
            batch_size = batch_size_cfg cfg, shuffle = True\<rparr>"
  let ?VL = "\<lparr>dataset = \<lparr>x = x_train, y = Some y_train\<rparr>,
            batch_size = batch_size_cfg cfg, shuffle = True\<rparr>"
  have a: "notebook_datasets x_train x_valid x_text y_train y_valid =
     (\<lparr>x = x_valid, y = Some y_valid\<rparr>, \<lparr>x = x_train, y = Some y_train\<rparr>, \<lparr>x = x_text, y = None\<rparr>)"
    by (simp add: notebook_datasets_def MyDataset_init_def)
  have b: "notebook_training N cfg x_train x_valid x_text y_train y_valid draws_train draws_valid
           m file =
           trainer_loop N train_loader valid_loader cfg 0 (trainer_init N m cfg file)"
    by (simp add: notebook_training_def notebook_loaders_def a trainer_def train_loader_def valid_loader_def)
  have pass: "\<exists>bs. xy_pass \<lparr>dataset = \<lparr>x = xs, y = Some ys\<rparr>, batch_size = batch_size_cfg cfg,
                    shuffle = True\<rparr> drawn = Inr bs
            \<and> bs \<noteq> []
            \<and> concat (map fst bs) = map ((!) xs) drawn
            \<and> concat (map snd bs) = map ((!) ys) drawn"
    if "length ys = length xs" and "0 < length xs" and "set drawn = {0..<length xs}"
    for xs ys drawn
  proof -
    let ?l = "\<lparr>dataset = \<lparr>x = xs, y = Some ys\<rparr>, batch_size = batch_size_cfg cfg, shuffle = True\<rparr>"
    have "\<exists>bs. xy_pass ?l drawn = Inr bs
            \<and> concat (map fst bs) = map ((!) xs) drawn
            \<and> concat (map snd bs) = map ((!) ys) drawn"
      using xy_pass_content [of ?l ys drawn] that bs
      by (simp add: aligned_def len_def sampler_order_def)
    moreover have "\<exists>bs. xy_pass ?l drawn = Inr bs \<and> bs \<noteq> []"
      using xy_pass_nonempty [of ?l drawn] that bs
      by (simp add: aligned_def len_def)
    ultimately show ?thesis by auto
  qed
  from pass [OF lv dt] obtain tb where
    tb: "train_loader k = Inr tb" "tb \<noteq> []"
      "concat (map fst tb) = map ((!) x_valid) (draws_train k)"
      "concat (map snd tb) = map ((!) y_valid) (draws_train k)"
    unfolding train_loader_def by blast
  from pass [OF lt dv] obtain vb where
    vb: "valid_loader k = Inr vb" "vb \<noteq> []"
      "concat (map fst vb) = map ((!) x_train) (draws_valid k)"
      "concat (map snd vb) = map ((!) y_train) (draws_valid k)"
    unfolding valid_loader_def by blast
  from run_epoch_computes [where tr = train_loader and epoch = k and va = valid_loader
      and N = N and cfg = cfg and s = s, OF tb(1,2) vb(1,2)]
  obtain s' where
    s': "run_epoch N train_loader valid_loader cfg k s = Inr s'"
      "(params (model s'), optimizer s') = foldl grad (params (model s), optimizer s) tb"
      "step s' = step s + length tb"
      "epoch_valid_loss N train_loader valid_loader k s =
         Inr (sum_list (map (\<lambda>(xs, ys). MSELoss (forward N (params (model s')) xs) ys) vb)
                / real (length vb))"
      "writer s' = writer s @
               [(''Loss/train'',
                 sum_list (map (\<lambda>i. MSELoss
                     (forward N (fst (foldl grad (params (model s), optimizer s) (take i tb)))
                        (fst (tb ! i)))
                     (snd (tb ! i))) [0..<length tb]) / real (length tb),
                 step s + length tb),
                (''Loss/valid'',
                 sum_list (map (\<lambda>(xs, ys). MSELoss (forward N (params (model s')) xs) ys) vb)
                   / real (length vb),
                 step s + length tb)]"
    unfolding grad_def by blast
  have loop: "trainer_loop N train_loader valid_loader cfg k s =
                   (if early_stop cfg \<le> int (early_stop_count s') then Inr (halt s')
                    else trainer_loop N train_loader valid_loader cfg (Suc k) s')"
    if "int k < n_epochs cfg"
    using that s'(1) by (simp add: trainer_loop.simps [of N train_loader valid_loader cfg k s])
  show ?thesis
    using a b tb(1,3,4) vb(1,3,4) s' loop by blast
qed




theorem notebook_trains_on_validation_split_witness:
  "length [30 :: real] = length [[3 :: real]] \<and> 0 < length [[3 :: real]]
   \<and> length [10, 20 :: real] = length [[1], [2 :: real]] \<and> 0 < length [[1], [2 :: real]]
   \<and> 0 < batch_size_cfg \<lparr>n_epochs = 1, batch_size_cfg = 2, weight_decay = 0, lr = 1, early_stop = 1\<rparr>
   \<and> set [0] = {0..<length [[3 :: real]]} \<and> set [1, 0] = {0..<length [[1], [2 :: real]]}
   \<and> (\<exists>s'. run_epoch example_net
            (\<lambda>k. xy_pass \<lparr>dataset = \<lparr>x = [[3]], y = Some [30]\<rparr>, batch_size = 2, shuffle = True\<rparr> [0])
            (\<lambda>k. xy_pass \<lparr>dataset = \<lparr>x = [[1], [2]], y = Some [10, 20]\<rparr>, batch_size = 2,
                           shuffle = True\<rparr> [1, 0])
            \<lparr>n_epochs = 1, batch_size_cfg = 2, weight_decay = 0, lr = 1, early_stop = 1\<rparr> 0
            (trainer_init example_net \<lparr>params = 0, training = False\<rparr>
               \<lparr>n_epochs = 1, batch_size_cfg = 2, weight_decay = 0, lr = 1, early_stop = 1\<rparr> None) = Inr s'
          \<and> params (model s') = - 1 \<and> step s' = 1
          \<and> writer s' = [(''Loss/train'', 729, 1), (''Loss/valid'', 461 / 2, 1)])"
proof -
  let ?cfg = "\<lparr>n_epochs = 1, batch_size_cfg = 2, weight_decay = 0, lr = 1, early_stop = 1\<rparr>"
  let ?m = "\<lparr>params = 0 :: real, training = False\<rparr>"
  let ?s = "trainer_init example_net ?m ?cfg None"
  have h: "length [30 :: real] = length [[3 :: real]]" "0 < length [[3 :: real]]"
    "length [10, 20 :: real] = length [[1], [2 :: real]]" "0 < length [[1], [2 :: real]]"
    "0 < batch_size_cfg ?cfg"
    "set ((\<lambda>k::nat. [0::nat]) 0) = {0..<length [[3 :: real]]}"
    "set ((\<lambda>k::nat. [1, 0::nat]) 0) = {0..<length [[1], [2 :: real]]}"
    by auto
  from notebook_trains_on_validation_split
    [where N = example_net and cfg = ?cfg and x_valid = "[[3]]" and y_valid = "[30]"
      and x_train = "[[1], [2]]" and y_train = "[10, 20]"
      and draws_train = "\<lambda>k. [0]" and draws_valid = "\<lambda>k. [1, 0]" and k = 0
      and s = ?s and m = ?m and x_text = "[[4]]", OF h, of None]
  obtain tb vb s' where
    t: "xy_pass \<lparr>dataset = \<lparr>x = [[3]], y = Some [30]\<rparr>, batch_size = batch_size_cfg ?cfg,
          shuffle = True\<rparr> [0] = Inr tb"
      "xy_pass \<lparr>dataset = \<lparr>x = [[1], [2]], y = Some [10, 20]\<rparr>, batch_size = batch_size_cfg ?cfg,
          shuffle = True\<rparr> [1, 0] = Inr vb"
      "run_epoch example_net
         (\<lambda>k. xy_pass \<lparr>dataset = \<lparr>x = [[3]], y = Some [30]\<rparr>, batch_size = batch_size_cfg ?cfg,
                        shuffle = True\<rparr> [0])
         (\<lambda>k. xy_pass \<lparr>dataset = \<lparr>x = [[1], [2]], y = Some [10, 20]\<rparr>,
                        batch_size = batch_size_cfg ?cfg, shuffle = True\<rparr> [1, 0])
         ?cfg 0 ?s = Inr s'"
      "(params (model s'), optimizer s') =
         foldl (\<lambda>(p, opt) (xs, ys). update example_net p opt xs ys)
           (params (model ?s), optimizer ?s) tb"
      "step s' = step ?s + length tb"
      "writer s' = writer ?s @
               [(''Loss/train'',
                 sum_list (map (\<lambda>i. MSELoss
                     (forward example_net
                        (fst (foldl (\<lambda>(p, opt) (xs, ys). update example_net p opt xs ys)
                                (params (model ?s), optimizer ?s) (take i tb)))
                        (fst (tb ! i)))
                     (snd (tb ! i))) [0..<length tb]) / real (length tb),
                 step ?s + length tb),
                (''Loss/valid'',
                 sum_list (map (\<lambda>(xs, ys). MSELoss (forward example_net (params (model s')) xs) ys) vb)
                   / real (length vb),
                 step ?s + length tb)]"
    by blast
  have tb: "tb = [([[3]], [30])]"
    using t(1) by (simp add: xy_pass_def DataLoader_iter_def sampler_order_def len_def getitem_def
        tensor_getitem_def collate_xy_def item_row_def item_labels_def)
  have vb: "vb = [([[2], [1]], [20, 10])]"
    using t(2) by (simp add: xy_pass_def DataLoader_iter_def sampler_order_def len_def getitem_def
        tensor_getitem_def collate_xy_def item_row_def item_labels_def)
  have p: "params (model s') = - 1" "optimizer s' = 1"
    using t(4) by (simp_all add: tb example_net_def trainer_init_def)
  have st: "step s' = 1" using t(5) by (simp add: tb trainer_init_def)
  have w: "writer s' = [(''Loss/train'', 729, 1), (''Loss/valid'', 461 / 2, 1)]"
    using t(6) by (simp add: tb vb p example_net_def trainer_init_def MSELoss_def)
  have "run_epoch example_net
            (\<lambda>k. xy_pass \<lparr>dataset = \<lparr>x = [[3]], y = Some [30]\<rparr>, batch_size = 2, shuffle = True\<rparr> [0])
            (\<lambda>k. xy_pass \<lparr>dataset = \<lparr>x = [[1], [2]], y = Some [10, 20]\<rparr>, batch_size = 2,
                           shuffle = True\<rparr> [1, 0])
            ?cfg 0 ?s = Inr s'"
    using t(3) by simp
  then show ?thesis using p(1) st w by auto
qed

end
